theory Spec2Isabelle
  imports Complex_Main "HOL-Library.Stream"
begin

section \<open>Beehive data generator: data model\<close>

text \<open>
  The embedding follows \<^verbatim>\<open>generate_hive_data_json.py\<close>, function
  \<^verbatim>\<open>generate_beehive_data\<close>. Python floats are idealised as \<^typ>\<open>real\<close>;
  \<^verbatim>\<open>np.sin\<close> and \<^verbatim>\<open>np.pi\<close> are \<^term>\<open>sin\<close> and \<^term>\<open>pi\<close>.
\<close>

text \<open>One entry of \<^verbatim>\<open>hives_config\<close> (keys id, name, type, location, master_id).\<close>

record hive =
  id_hive :: string
  name_hive :: string
  type_hive :: string
  location_hive :: string
  master_id_hive :: "string option"

text \<open>
  What the generator reads from a pandas timestamp of \<^verbatim>\<open>time_range\<close>:
  \<^verbatim>\<open>timestamp.hour\<close>, \<^verbatim>\<open>timestamp.timetuple().tm_yday\<close> and
  \<^verbatim>\<open>timestamp.isoformat()\<close>.
\<close>

record pd_timestamp =
  hour :: int
  tm_yday :: int
  isoformat :: string

text \<open>One dictionary appended to \<^verbatim>\<open>data\<close>.\<close>

record reading =
  timestamp :: string
  hive_id :: string
  hive_name :: string
  hive_type :: string
  location :: string
  master_id :: "string option"
  temperature :: real
  humidity :: real
  weight :: real
  activity_level :: real
  hourly_production :: real
  cumulative_production :: real
  production_efficiency :: real

datatype py_error = KeyError | ZeroDivisionError

definition hives_config :: "hive list" where
  "hives_config =
    [\<lparr>id_hive = ''master_001'', name_hive = ''Master Hive Alpha'', type_hive = ''master'',
      location_hive = ''North Field'', master_id_hive = None\<rparr>,
     \<lparr>id_hive = ''worker_001'', name_hive = ''Worker Hive 1'', type_hive = ''worker'',
      location_hive = ''North Field'', master_id_hive = Some ''master_001''\<rparr>,
     \<lparr>id_hive = ''worker_002'', name_hive = ''Worker Hive 2'', type_hive = ''worker'',
      location_hive = ''North Field'', master_id_hive = Some ''master_001''\<rparr>,
     \<lparr>id_hive = ''worker_003'', name_hive = ''Worker Hive 3'', type_hive = ''worker'',
      location_hive = ''East Field'', master_id_hive = Some ''master_001''\<rparr>,
     \<lparr>id_hive = ''master_002'', name_hive = ''Master Hive Beta'', type_hive = ''master'',
      location_hive = ''South Field'', master_id_hive = None\<rparr>,
     \<lparr>id_hive = ''worker_004'', name_hive = ''Worker Hive 4'', type_hive = ''worker'',
      location_hive = ''South Field'', master_id_hive = Some ''master_002''\<rparr>,
     \<lparr>id_hive = ''worker_005'', name_hive = ''Worker Hive 5'', type_hive = ''worker'',
      location_hive = ''West Field'', master_id_hive = Some ''master_002''\<rparr>]"

section \<open>Random source and rounding\<close>

text \<open>
  The process-wide numpy random state, made an explicit input: the standard normal
  samples and the unit uniform samples that successive calls will consume.
  \<^verbatim>\<open>np.random.normal(loc, scale)\<close> returns \<open>loc + scale * z\<close> for the next
  standard normal sample \<open>z\<close>; \<^verbatim>\<open>np.random.uniform(low, high)\<close> returns
  \<open>low + (high - low) * u\<close> for the next sample \<open>u\<close> of the unit interval.
\<close>

record rng =
  normals :: "real stream"
  uniforms :: "real stream"

definition random_normal :: "real \<Rightarrow> real \<Rightarrow> rng \<Rightarrow> real \<times> rng" where
  "random_normal loc scale g =
     (loc + scale * shd (normals g), g\<lparr>normals := stl (normals g)\<rparr>)"

definition random_uniform :: "real \<Rightarrow> real \<Rightarrow> rng \<Rightarrow> real \<times> rng" where
  "random_uniform low high g =
     (low + (high - low) * shd (uniforms g), g\<lparr>uniforms := stl (uniforms g)\<rparr>)"

text \<open>The unit samples lie in the unit interval.\<close>

definition unit_samples :: "rng \<Rightarrow> bool" where
  "unit_samples g = (\<forall>u \<in> sset (uniforms g). 0 \<le> u \<and> u \<le> 1)"

text \<open>Python's \<^verbatim>\<open>round(x, n)\<close>: to the nearest multiple of \<open>10^-n\<close>, ties to even.\<close>

definition round_half_even :: "real \<Rightarrow> int" where
  "round_half_even x =
     (let f = \<lfloor>x\<rfloor>; d = x - of_int f
      in if d < 1 / 2 then f else if 1 / 2 < d then f + 1
         else if even f then f else f + 1)"

definition py_round :: "real \<Rightarrow> nat \<Rightarrow> real" where
  "py_round x n = of_int (round_half_even (x * 10 ^ n)) / 10 ^ n"

section \<open>The loop body, lines 35 to 79: simulated signals\<close>

definition active_hours :: "int \<Rightarrow> bool" where
  "active_hours h = (6 \<le> h \<and> h \<le> 20)"

definition base_temp :: "int \<Rightarrow> int \<Rightarrow> real" where
  "base_temp h d = 35 + 3 * sin (2 * pi * of_int h / 24) + 2 * sin (2 * pi * of_int d / 365)"

definition base_humidity :: "int \<Rightarrow> int \<Rightarrow> real" where
  "base_humidity h d =
     65 - 10 * sin (2 * pi * of_int h / 24) + 5 * sin (2 * pi * of_int d / 365)"

definition base_weight :: "hive \<Rightarrow> real" where
  "base_weight hv = (if type_hive hv = ''master'' then 40 else 32)"

definition seasonal_weight :: "int \<Rightarrow> real" where
  "seasonal_weight d = 5 * sin (2 * pi * of_int d / 365)"

definition daily_weight :: "int \<Rightarrow> real" where
  "daily_weight h =
     (if 6 \<le> h \<and> h \<le> 18 then - 2 * sin (2 * pi * of_int (h - 6) / 24) else 0)"

definition base_activity :: "int \<Rightarrow> real" where
  "base_activity h =
     (if 6 \<le> h \<and> h \<le> 18 then 50 + 30 * sin (2 * pi * of_int (h - 6) / 12) else 20)"

definition production_multiplier :: "hive \<Rightarrow> real" where
  "production_multiplier hv = (if type_hive hv = ''master'' then 1.5 else 1.0)"

definition temp_factor :: "real \<Rightarrow> real" where
  "temp_factor t = (if 33 \<le> t \<and> t \<le> 37 then 1.0 else 0.7)"

definition humidity_factor :: "real \<Rightarrow> real" where
  "humidity_factor hm = (if 45 \<le> hm \<and> hm \<le> 65 then 1.0 else 0.8)"

definition seasonal_factor :: "int \<Rightarrow> real" where
  "seasonal_factor d = 0.5 + 0.8 * (0.5 + 0.5 * sin (2 * pi * of_int (d - 80) / 365))"

definition base_hourly_production :: "hive \<Rightarrow> real" where
  "base_hourly_production hv = 0.008 * production_multiplier hv"

text \<open>The values of the local variables of one iteration, before rounding.\<close>

record signals =
  temperature_v :: real
  humidity_v :: real
  weight_v :: real
  activity_v :: real
  hourly_production_v :: real

definition simulate :: "pd_timestamp \<Rightarrow> hive \<Rightarrow> rng \<Rightarrow> signals \<times> rng" where
  "simulate ts hv g0 =
     (let h = hour ts; d = tm_yday ts;
          (temp_noise, g1) = random_normal 0 0.5 g0;
          temperature = base_temp h d + temp_noise;
          (humidity_noise, g2) = random_normal 0 2 g1;
          humidity = max 30 (min 90 (base_humidity h d + humidity_noise));
          (weight_noise, g3) = random_normal 0 0.3 g2;
          weight = base_weight hv + seasonal_weight d + daily_weight h + weight_noise;
          (activity_noise, g4) = random_normal 0 10 g3;
          activity = max 0 (min 100 (base_activity h + activity_noise));
          activity_factor = activity / 100;
          (hourly_production, g5) =
            (if active_hours h
             then (let p = base_hourly_production hv * temp_factor temperature *
                           humidity_factor humidity * activity_factor * seasonal_factor d;
                       (r, g') = random_uniform 0.7 1.3 g4
                   in (p * r, g'))
             else (0, g4))
      in (\<lparr>temperature_v = temperature, humidity_v = humidity, weight_v = weight,
           activity_v = activity, hourly_production_v = hourly_production\<rparr>, g5))"

section \<open>Lines 81 to 101: accumulator, efficiency and the emitted row\<close>

definition py_div :: "real \<Rightarrow> real \<Rightarrow> py_error + real" where
  "py_div a b = (if b = 0 then Inl ZeroDivisionError else Inr (a / b))"

definition efficiency :: "real \<Rightarrow> real \<Rightarrow> py_error + real" where
  "efficiency hp activity =
     (if activity > 0 then py_div hp (activity / 100) else Inr 0)"

definition add_production ::
  "(string \<rightharpoonup> real) \<Rightarrow> string \<Rightarrow> real \<Rightarrow> py_error + (string \<rightharpoonup> real)" where
  "add_production cum k x =
     (case cum k of None \<Rightarrow> Inl KeyError | Some a \<Rightarrow> Inr (cum(k \<mapsto> a + x)))"

definition emit :: "pd_timestamp \<Rightarrow> hive \<Rightarrow> signals \<Rightarrow> real \<Rightarrow> real \<Rightarrow> reading" where
  "emit ts hv sg tot eff =
     \<lparr>timestamp = isoformat ts, hive_id = id_hive hv, hive_name = name_hive hv,
      hive_type = type_hive hv, location = location_hive hv, master_id = master_id_hive hv,
      temperature = py_round (temperature_v sg) 1,
      humidity = py_round (humidity_v sg) 1,
      weight = py_round (weight_v sg) 1,
      activity_level = py_round (activity_v sg) 0,
      hourly_production = py_round (hourly_production_v sg) 4,
      cumulative_production = py_round tot 3,
      production_efficiency = py_round eff 4\<rparr>"

record gen_state =
  data :: "reading list"
  cumulative :: "string \<rightharpoonup> real"
  random_state :: rng

definition hive_body :: "pd_timestamp \<Rightarrow> hive \<Rightarrow> gen_state \<Rightarrow> py_error + gen_state" where
  "hive_body ts hv s =
     (let (sg, g) = simulate ts hv (random_state s)
      in case add_production (cumulative s) (id_hive hv) (hourly_production_v sg) of
           Inl e \<Rightarrow> Inl e
         | Inr cum \<Rightarrow>
             (case efficiency (hourly_production_v sg) (activity_v sg) of
                Inl e \<Rightarrow> Inl e
              | Inr eff \<Rightarrow>
                  (case cum (id_hive hv) of
                     None \<Rightarrow> Inl KeyError
                   | Some tot \<Rightarrow>
                       Inr \<lparr>data = data s @ [emit ts hv sg tot eff],
                            cumulative = cum, random_state = g\<rparr>)))"

fun hives_loop :: "pd_timestamp \<Rightarrow> hive list \<Rightarrow> gen_state \<Rightarrow> py_error + gen_state" where
  "hives_loop ts [] s = Inr s"
| "hives_loop ts (hv # hvs) s =
     (case hive_body ts hv s of Inl e \<Rightarrow> Inl e | Inr s' \<Rightarrow> hives_loop ts hvs s')"

fun time_loop :: "hive list \<Rightarrow> pd_timestamp list \<Rightarrow> gen_state \<Rightarrow> py_error + gen_state" where
  "time_loop hvs [] s = Inr s"
| "time_loop hvs (ts # tss) s =
     (case hives_loop ts hvs s of Inl e \<Rightarrow> Inl e | Inr s' \<Rightarrow> time_loop hvs tss s')"

definition initial_state :: "hive list \<Rightarrow> rng \<Rightarrow> gen_state" where
  "initial_state hvs g =
     \<lparr>data = [], cumulative = map_of (map (\<lambda>hv. (id_hive hv, 0)) hvs), random_state = g\<rparr>"

text \<open>
  \<^verbatim>\<open>generate_beehive_data\<close>, with the time grid \<^verbatim>\<open>time_range\<close> and the random
  source as arguments; the result is the pair \<^verbatim>\<open>(data, hives_config)\<close>.
\<close>

definition generate_beehive_data ::
  "pd_timestamp list \<Rightarrow> rng \<Rightarrow> py_error + (reading list \<times> hive list)" where
  "generate_beehive_data time_range g =
     (case time_loop hives_config time_range (initial_state hives_config g) of
        Inl e \<Rightarrow> Inl e
      | Inr s \<Rightarrow> Inr (data s, hives_config))"

section \<open>Predicates and sample inputs used in the statements\<close>

text \<open>A row that some successful call of the loop body for this timestamp and hive appends.\<close>

definition emitted_by :: "bool \<Rightarrow> pd_timestamp \<Rightarrow> hive \<Rightarrow> reading \<Rightarrow> bool" where
  "emitted_by U ts hv r =
     (\<exists>s0 s1. (U \<longrightarrow> unit_samples (random_state s0)) \<and>
        hive_body ts hv s0 = Inr s1 \<and> data s1 = data s0 @ [r])"

definition night_time :: pd_timestamp where
  "night_time = \<lparr>hour = 2, tm_yday = 80, isoformat = ''2025-03-21T02:00:00''\<rparr>"

definition dawn_time :: pd_timestamp where
  "dawn_time = \<lparr>hour = 6, tm_yday = 80, isoformat = ''2025-03-21T06:00:00''\<rparr>"

definition noon_time :: pd_timestamp where
  "noon_time = \<lparr>hour = 12, tm_yday = 172, isoformat = ''2025-06-21T12:00:00''\<rparr>"

definition zero_rng :: rng where
  "zero_rng = \<lparr>normals = sconst 0, uniforms = sconst 0\<rparr>"

definition solstice_rng :: rng where
  "solstice_rng = \<lparr>normals = [0, - 5, 0, 5] @- sconst 0, uniforms = sconst 0\<rparr>"

definition drowsy_rng :: rng where
  "drowsy_rng = \<lparr>normals = [0, 0, 0, - 4.97] @- sconst 0, uniforms = sconst 0\<rparr>"

definition still_rng :: rng where
  "still_rng = \<lparr>normals = [0, 0, 0, - 3] @- sconst 0, uniforms = sconst 0\<rparr>"

definition efficiency_rule :: "pd_timestamp \<Rightarrow> hive \<Rightarrow> reading \<Rightarrow> bool" where
  "efficiency_rule ts hv r =
     (\<exists>g e. efficiency (hourly_production_v (fst (simulate ts hv g)))
               (activity_v (fst (simulate ts hv g))) = Inr e \<and>
        activity_level r = py_round (activity_v (fst (simulate ts hv g))) 0 \<and>
        production_efficiency r = py_round e 4 \<and>
        (activity_v (fst (simulate ts hv g)) = 0 \<longrightarrow> production_efficiency r = 0))"

text \<open>
  A call of the loop body as the run makes it: the timestamp and hive of the iteration and
  the generator state in which the body starts. \<open>body_calls\<close> lists the calls of the inner
  loop \<open>hives_loop\<close> and \<open>run_calls\<close> those of the outer loop \<open>time_loop\<close>, following the
  loops' own recursion; \<open>call_signals\<close> and \<open>call_multiplier\<close> are the unrounded values and
  the uniform multiplier the body computes in that state, and \<open>call_row\<close> says that a row
  is the one the call appends.
\<close>

record body_call =
  call_time :: pd_timestamp
  call_hive :: hive
  call_state :: gen_state

fun body_calls :: "pd_timestamp \<Rightarrow> hive list \<Rightarrow> gen_state \<Rightarrow> body_call list" where
  "body_calls ts [] s = []"
| "body_calls ts (hv # hvs) s =
     \<lparr>call_time = ts, call_hive = hv, call_state = s\<rparr> #
     (case hive_body ts hv s of Inl e \<Rightarrow> [] | Inr s' \<Rightarrow> body_calls ts hvs s')"

fun run_calls :: "hive list \<Rightarrow> pd_timestamp list \<Rightarrow> gen_state \<Rightarrow> body_call list" where
  "run_calls hvs [] s = []"
| "run_calls hvs (ts # tss) s =
     body_calls ts hvs s @
     (case hives_loop ts hvs s of Inl e \<Rightarrow> [] | Inr s' \<Rightarrow> run_calls hvs tss s')"

definition call_signals :: "body_call \<Rightarrow> signals" where
  "call_signals c = fst (simulate (call_time c) (call_hive c) (random_state (call_state c)))"

definition call_multiplier :: "body_call \<Rightarrow> real" where
  "call_multiplier c = fst (random_uniform 0.7 1.3 (random_state (call_state c)))"

definition call_row :: "body_call \<Rightarrow> reading \<Rightarrow> bool" where
  "call_row c r =
     (\<exists>s'. hive_body (call_time c) (call_hive c) (call_state c) = Inr s' \<and>
        data s' = data (call_state c) @ [r])"

definition production_rule :: "bool \<Rightarrow> body_call \<Rightarrow> reading \<Rightarrow> bool" where
  "production_rule U c r =
     (hourly_production r = py_round (hourly_production_v (call_signals c)) 4 \<and>
      (U \<longrightarrow> 0.7 \<le> call_multiplier c \<and> call_multiplier c \<le> 1.3) \<and>
      hourly_production_v (call_signals c) =
        (if 6 \<le> hour (call_time c) \<and> hour (call_time c) \<le> 20
         then 0.008 * (if type_hive (call_hive c) = ''master'' then 1.5 else 1.0) *
              temp_factor (temperature_v (call_signals c)) *
              humidity_factor (humidity_v (call_signals c)) *
              (activity_v (call_signals c) / 100) *
              seasonal_factor (tm_yday (call_time c)) * call_multiplier c
         else 0) \<and>
      (\<not> (6 \<le> hour (call_time c) \<and> hour (call_time c) \<le> 20) \<longrightarrow> hourly_production r = 0))"

definition sluggish_rng :: rng where
  "sluggish_rng = \<lparr>normals = [0, 0, 0, - 4.7] @- sconst 0, uniforms = sconst 0\<rparr>"

definition faint_rng :: rng where
  "faint_rng = \<lparr>normals = [0, 0, 0, - 4.94] @- sconst 0, uniforms = sconst 0\<rparr>"

text \<open>
  Running sums, and the per-hive relation between the rows of one hive and a list of
  unrounded hourly productions; \<open>hive_productions\<close> are the unrounded hourly productions
  computed by the calls of one hive, in the order of the run.
\<close>

fun running :: "real \<Rightarrow> real list \<Rightarrow> real list" where
  "running a [] = []"
| "running a (x # xs) = (a + x) # running (a + x) xs"

definition ledger :: "string \<Rightarrow> real \<Rightarrow> reading list \<Rightarrow> real list \<Rightarrow> bool" where
  "ledger k a rows xs =
     (map hourly_production (filter (\<lambda>r. hive_id r = k) rows) = map (\<lambda>x. py_round x 4) xs \<and>
      map cumulative_production (filter (\<lambda>r. hive_id r = k) rows) =
        map (\<lambda>t. py_round t 3) (running a xs) \<and>
      (\<forall>x \<in> set xs. 0 \<le> x))"

definition hive_productions :: "string \<Rightarrow> body_call list \<Rightarrow> real list" where
  "hive_productions k cs =
     map (\<lambda>c. hourly_production_v (call_signals c))
       (filter (\<lambda>c. id_hive (call_hive c) = k) cs)"

text \<open>Two random sources that agree on their first n normal and m uniform samples.\<close>

definition agree :: "nat \<Rightarrow> nat \<Rightarrow> rng \<Rightarrow> rng \<Rightarrow> bool" where
  "agree n m g1 g2 =
     ((\<forall>i < n. normals g1 !! i = normals g2 !! i) \<and>
      (\<forall>j < m. uniforms g1 !! j = uniforms g2 !! j))"

definition states_agree :: "nat \<Rightarrow> nat \<Rightarrow> gen_state \<Rightarrow> gen_state \<Rightarrow> bool" where
  "states_agree n m s1 s2 =
     (data s1 = data s2 \<and> cumulative s1 = cumulative s2 \<and>
      agree n m (random_state s1) (random_state s2))"

definition late_rng :: rng where
  "late_rng = \<lparr>normals = replicate 28 0 @- sconst 1, uniforms = replicate 7 0 @- sconst 1\<rparr>"

section \<open>Properties\<close>

text \<open>
  C6. In the seven-entry table, every worker hive's master_id is the id of a master
  hive of the table, and every master hive has no master_id.
\<close>

theorem topology_master_links:
  "length hives_config = 7 \<and>
   (\<forall>hv \<in> set hives_config.
      (type_hive hv = ''worker'' \<longrightarrow>
         (\<exists>m \<in> set hives_config. type_hive m = ''master'' \<and> master_id_hive hv = Some (id_hive m))) \<and>
      (type_hive hv = ''master'' \<longrightarrow> master_id_hive hv = None))"
  by (simp add: hives_config_def)

theorem topology_master_links_witness:
  "hives_config ! 1 \<in> set hives_config \<and> type_hive (hives_config ! 1) = ''worker'' \<and>
   (\<exists>m \<in> set hives_config. type_hive m = ''master'' \<and>
      master_id_hive (hives_config ! 1) = Some (id_hive m))"
proof -
  have mem: "hives_config ! 1 \<in> set hives_config"
    by (simp add: hives_config_def)
  have wk: "type_hive (hives_config ! 1) = ''worker''"
    by (simp add: hives_config_def)
  from topology_master_links mem wk show ?thesis by blast
qed

lemma round_half_even_bounds:
  "\<lfloor>x\<rfloor> \<le> round_half_even x \<and> round_half_even x \<le> \<lfloor>x\<rfloor> + 1"
  by (simp add: round_half_even_def Let_def)

lemma round_half_even_mono:
  assumes "x \<le> y"
  shows "round_half_even x \<le> round_half_even y"
proof (cases "\<lfloor>x\<rfloor> = \<lfloor>y\<rfloor>")
  case True
  with assms show ?thesis
    by (auto simp: round_half_even_def Let_def)
next
  case False
  with assms have "\<lfloor>x\<rfloor> + 1 \<le> \<lfloor>y\<rfloor>"
    using floor_mono [of x y] by linarith
  with round_half_even_bounds [of x] round_half_even_bounds [of y]
  show ?thesis by linarith
qed

lemma round_half_even_of_int [simp]: "round_half_even (of_int k) = k"
  by (simp add: round_half_even_def)

lemma py_round_mono: "x \<le> y \<Longrightarrow> py_round x n \<le> py_round y n"
  by (simp add: py_round_def divide_right_mono round_half_even_mono mult_right_mono)

lemma py_round_of_int [simp]: "py_round (of_int k) n = of_int k"
proof -
  have "of_int k * (10::real) ^ n = of_int (k * 10 ^ n)" by simp
  then have "round_half_even (of_int k * 10 ^ n) = k * 10 ^ n"
    by (simp only: round_half_even_of_int)
  then show ?thesis by (simp add: py_round_def)
qed

lemma py_round_0 [simp]: "py_round 0 n = 0"
  using py_round_of_int [of 0 n] by simp

lemma py_round_numeral [simp]: "py_round (numeral w) n = numeral w"
  using py_round_of_int [of "numeral w" n] by simp

lemma py_round_between:
  "of_int a \<le> x \<Longrightarrow> x \<le> of_int b \<Longrightarrow> of_int a \<le> py_round x n \<and> py_round x n \<le> of_int b"
  using py_round_mono [of "of_int a" x n] py_round_mono [of x "of_int b" n] by simp

lemma unit_samples_stl:
  "unit_samples g \<Longrightarrow> unit_samples (g\<lparr>uniforms := stl (uniforms g)\<rparr>)"
  by (auto simp: unit_samples_def dest: stl_sset)

lemma unit_samples_normals [simp]:
  "unit_samples (g\<lparr>normals := zs\<rparr>) = unit_samples g"
  by (simp add: unit_samples_def)

lemma unit_samples_shd: "unit_samples g \<Longrightarrow> 0 \<le> shd (uniforms g) \<and> shd (uniforms g) \<le> 1"
  by (simp add: unit_samples_def shd_sset)

lemma random_uniform_range:
  assumes "unit_samples g" "low \<le> high"
  shows "low \<le> fst (random_uniform low high g) \<and> fst (random_uniform low high g) \<le> high"
proof -
  let ?u = "shd (uniforms g)"
  from assms(1) have u: "0 \<le> ?u" "?u \<le> 1" by (simp_all add: unit_samples_shd)
  from assms(2) have d: "0 \<le> high - low" by simp
  from u d have "0 \<le> (high - low) * ?u" by simp
  moreover from u d have "(high - low) * ?u \<le> (high - low) * 1"
    by (intro mult_left_mono) simp_all
  ultimately show ?thesis by (simp add: random_uniform_def)
qed

lemma seasonal_factor_range: "1 / 2 \<le> seasonal_factor d \<and> seasonal_factor d \<le> 13 / 10"
proof -
  have aux: "1 / 2 \<le> 0.5 + 0.8 * (0.5 + 0.5 * s) \<and> 0.5 + 0.8 * (0.5 + 0.5 * s) \<le> 13 / 10"
    if "- 1 \<le> s" "s \<le> 1" for s :: real
    using that by simp
  show ?thesis unfolding seasonal_factor_def
    by (rule aux) (rule sin_ge_minus_one, rule sin_le_one)
qed

lemma temp_factor_range: "7 / 10 \<le> temp_factor t \<and> temp_factor t \<le> 1"
  by (simp add: temp_factor_def)

lemma humidity_factor_range: "8 / 10 \<le> humidity_factor h \<and> humidity_factor h \<le> 1"
  by (simp add: humidity_factor_def)

lemma base_hourly_production_range:
  "8 / 1000 \<le> base_hourly_production hv \<and> base_hourly_production hv \<le> 12 / 1000"
  by (simp add: base_hourly_production_def production_multiplier_def)

text \<open>The draws of one iteration, in the order the body makes them.\<close>

lemma simulate_unfold:
  "simulate ts hv g =
    (let z = normals g;
         temperature = base_temp (hour ts) (tm_yday ts) + 0.5 * (z !! 0);
         humidity = max 30 (min 90 (base_humidity (hour ts) (tm_yday ts) + 2 * (z !! 1)));
         weight = base_weight hv + seasonal_weight (tm_yday ts) + daily_weight (hour ts) + 0.3 * (z !! 2);
         activity = max 0 (min 100 (base_activity (hour ts) + 10 * (z !! 3)))
     in if active_hours (hour ts)
        then (\<lparr>temperature_v = temperature, humidity_v = humidity, weight_v = weight,
               activity_v = activity,
               hourly_production_v =
                 base_hourly_production hv * temp_factor temperature * humidity_factor humidity *
                 (activity / 100) * seasonal_factor (tm_yday ts) *
                 (0.7 + (1.3 - 0.7) * shd (uniforms g))\<rparr>,
              g\<lparr>normals := sdrop 4 z, uniforms := stl (uniforms g)\<rparr>)
        else (\<lparr>temperature_v = temperature, humidity_v = humidity, weight_v = weight,
               activity_v = activity, hourly_production_v = 0\<rparr>,
              g\<lparr>normals := sdrop 4 z\<rparr>))"
  by (simp add: simulate_def random_normal_def random_uniform_def Let_def numeral_eq_Suc)

lemma efficiency_Inr:
  "efficiency hp a = Inr (if a > 0 then hp / (a / 100) else 0)"
  by (simp add: efficiency_def py_div_def)

lemma hive_body_Some:
  assumes "cumulative s (id_hive hv) = Some a"
  shows "hive_body ts hv s =
    Inr \<lparr>data = data s @
            [emit ts hv (fst (simulate ts hv (random_state s)))
               (a + hourly_production_v (fst (simulate ts hv (random_state s))))
               (if activity_v (fst (simulate ts hv (random_state s))) > 0
                then hourly_production_v (fst (simulate ts hv (random_state s))) /
                     (activity_v (fst (simulate ts hv (random_state s))) / 100)
                else 0)],
          cumulative = (cumulative s)(id_hive hv \<mapsto>
             a + hourly_production_v (fst (simulate ts hv (random_state s)))),
          random_state = snd (simulate ts hv (random_state s))\<rparr>"
  using assms
  by (simp add: hive_body_def add_production_def efficiency_Inr split_def Let_def)

lemma hive_body_None:
  "cumulative s (id_hive hv) = None \<Longrightarrow> hive_body ts hv s = Inl KeyError"
  by (simp add: hive_body_def add_production_def split_def Let_def)

lemma simulate_unit_samples:
  "unit_samples g \<Longrightarrow> unit_samples (snd (simulate ts hv g))"
  by (auto simp: simulate_unfold Let_def unit_samples_def dest: stl_sset)

lemma hives_loop_rows:
  assumes "id_hive ` set hvs \<subseteq> dom (cumulative s)"
    and "U \<longrightarrow> unit_samples (random_state s)"
  shows "\<exists>s' rows. hives_loop ts hvs s = Inr s' \<and> data s' = data s @ rows \<and>
           dom (cumulative s') = dom (cumulative s) \<and>
           (U \<longrightarrow> unit_samples (random_state s')) \<and>
           list_all2 (\<lambda>r hv. emitted_by U ts hv r) rows hvs"
  using assms
proof (induction hvs arbitrary: s)
  case Nil
  then show ?case by simp
next
  case (Cons hv hvs)
  from Cons.prems(1) obtain a where a: "cumulative s (id_hive hv) = Some a"
    by auto
  define s1 where "s1 = projr (hive_body ts hv s)"
  have body: "hive_body ts hv s = Inr s1"
    by (simp add: s1_def hive_body_Some [OF a])
  have d1: "data s1 = data s @ [last (data s1)]"
    by (simp add: s1_def hive_body_Some [OF a])
  have dom1: "dom (cumulative s1) = dom (cumulative s)"
    using a by (auto simp: s1_def hive_body_Some [OF a])
  have u1: "U \<longrightarrow> unit_samples (random_state s1)"
    using Cons.prems(2) by (simp add: s1_def hive_body_Some [OF a] simulate_unit_samples)
  have e1: "emitted_by U ts hv (last (data s1))"
    unfolding emitted_by_def using Cons.prems(2) body d1 by blast
  from Cons.prems(1) dom1 have "id_hive ` set hvs \<subseteq> dom (cumulative s1)"
    by simp
  from Cons.IH [OF this u1] obtain s' rows where
    IH: "hives_loop ts hvs s1 = Inr s'" "data s' = data s1 @ rows"
      "dom (cumulative s') = dom (cumulative s1)"
      "U \<longrightarrow> unit_samples (random_state s')"
      "list_all2 (\<lambda>r hv. emitted_by U ts hv r) rows hvs"
    by blast
  have "hives_loop ts (hv # hvs) s = Inr s'"
    by (simp add: body IH(1))
  moreover have "data s' = data s @ (last (data s1) # rows)"
    using IH(2) d1 by (metis append.assoc append_Cons append_Nil)
  moreover have "list_all2 (\<lambda>r hv. emitted_by U ts hv r) (last (data s1) # rows) (hv # hvs)"
    using e1 IH(5) by simp
  ultimately show ?case
    using IH(3,4) dom1 by blast
qed

lemma time_loop_rows:
  assumes "id_hive ` set hvs \<subseteq> dom (cumulative s)"
    and "U \<longrightarrow> unit_samples (random_state s)"
  shows "\<exists>s' rows. time_loop hvs tss s = Inr s' \<and> data s' = data s @ rows \<and>
           dom (cumulative s') = dom (cumulative s) \<and>
           (U \<longrightarrow> unit_samples (random_state s')) \<and>
           list_all2 (\<lambda>r (ts, hv). emitted_by U ts hv r) rows (List.product tss hvs)"
  using assms
proof (induction tss arbitrary: s)
  case Nil
  then show ?case by simp
next
  case (Cons ts tss)
  from hives_loop_rows [OF Cons.prems, of ts] obtain s1 rows1 where
    H: "hives_loop ts hvs s = Inr s1" "data s1 = data s @ rows1"
      "dom (cumulative s1) = dom (cumulative s)"
      "U \<longrightarrow> unit_samples (random_state s1)"
      "list_all2 (\<lambda>r hv. emitted_by U ts hv r) rows1 hvs"
    by blast
  from Cons.prems(1) H(3) have "id_hive ` set hvs \<subseteq> dom (cumulative s1)"
    by simp
  from Cons.IH [OF this H(4)] obtain s' rows where
    IH: "time_loop hvs tss s1 = Inr s'" "data s' = data s1 @ rows"
      "dom (cumulative s') = dom (cumulative s1)"
      "U \<longrightarrow> unit_samples (random_state s')"
      "list_all2 (\<lambda>r (ts, hv). emitted_by U ts hv r) rows (List.product tss hvs)"
    by blast
  have "list_all2 (\<lambda>r (ts, hv). emitted_by U ts hv r) rows1 (map (Pair ts) hvs)"
    using H(5) by (simp add: list_all2_map2)
  then have "list_all2 (\<lambda>r (ts, hv). emitted_by U ts hv r) (rows1 @ rows)
      (List.product (ts # tss) hvs)"
    using IH(5) by (simp add: list_all2_appendI)
  moreover have "time_loop hvs (ts # tss) s = Inr s'"
    by (simp add: H(1) IH(1))
  moreover have "data s' = data s @ (rows1 @ rows)"
    by (simp add: IH(2) H(2))
  ultimately show ?case
    using IH(3,4) H(3) by blast
qed

lemma dom_initial_state: "dom (cumulative (initial_state hvs g)) = id_hive ` set hvs"
  by (simp add: initial_state_def dom_map_of_conv_image_fst image_image)

lemma generate_rows:
  "\<exists>rows. generate_beehive_data time_range g = Inr (rows, hives_config) \<and>
     list_all2 (\<lambda>r (ts, hv). emitted_by (unit_samples g) ts hv r) rows
       (List.product time_range hives_config)"
proof -
  let ?s = "initial_state hives_config g"
  have "id_hive ` set hives_config \<subseteq> dom (cumulative ?s)"
    by (simp add: dom_initial_state)
  moreover have "unit_samples g \<longrightarrow> unit_samples (random_state ?s)"
    by (simp add: initial_state_def)
  ultimately obtain s' rows where
    "time_loop hives_config time_range ?s = Inr s'" "data s' = data ?s @ rows"
    "list_all2 (\<lambda>r (ts, hv). emitted_by (unit_samples g) ts hv r) rows
       (List.product time_range hives_config)"
    using time_loop_rows [of hives_config ?s "unit_samples g" time_range] by blast
  then show ?thesis
    by (simp add: generate_beehive_data_def initial_state_def)
qed

lemma emitted_by_emit:
  assumes "emitted_by U ts hv r"
  obtains g tot where "U \<longrightarrow> unit_samples g"
    and "r = emit ts hv (fst (simulate ts hv g)) tot
           (if activity_v (fst (simulate ts hv g)) > 0
            then hourly_production_v (fst (simulate ts hv g)) /
                 (activity_v (fst (simulate ts hv g)) / 100)
            else 0)"
proof -
  from assms obtain s0 s1 where
    u: "U \<longrightarrow> unit_samples (random_state s0)" and
    b: "hive_body ts hv s0 = Inr s1" and d: "data s1 = data s0 @ [r]"
    unfolding emitted_by_def by blast
  show thesis
  proof (cases "cumulative s0 (id_hive hv)")
    case None
    with b show thesis by (simp add: hive_body_None)
  next
    case (Some a)
    from b d have "r = emit ts hv (fst (simulate ts hv (random_state s0)))
           (a + hourly_production_v (fst (simulate ts hv (random_state s0))))
           (if activity_v (fst (simulate ts hv (random_state s0))) > 0
            then hourly_production_v (fst (simulate ts hv (random_state s0))) /
                 (activity_v (fst (simulate ts hv (random_state s0))) / 100)
            else 0)"
      unfolding hive_body_Some [OF Some] by auto
    with u show thesis by (rule that)
  qed
qed

lemma simulate_activity_range:
  "0 \<le> activity_v (fst (simulate ts hv g)) \<and> activity_v (fst (simulate ts hv g)) \<le> 100"
  by (simp add: simulate_unfold Let_def)

lemma simulate_humidity_range:
  "30 \<le> humidity_v (fst (simulate ts hv g)) \<and> humidity_v (fst (simulate ts hv g)) \<le> 90"
  by (simp add: simulate_unfold Let_def)

lemma simulate_inactive:
  "\<not> active_hours (hour ts) \<Longrightarrow> hourly_production_v (fst (simulate ts hv g)) = 0"
  by (simp add: simulate_unfold Let_def)

lemma simulate_active:
  "active_hours (hour ts) \<Longrightarrow>
   hourly_production_v (fst (simulate ts hv g)) =
     base_hourly_production hv * temp_factor (temperature_v (fst (simulate ts hv g))) *
     humidity_factor (humidity_v (fst (simulate ts hv g))) *
     (activity_v (fst (simulate ts hv g)) / 100) * seasonal_factor (tm_yday ts) *
     fst (random_uniform 0.7 1.3 g)"
  by (simp add: simulate_unfold Let_def random_uniform_def)

lemma py_round_ge_numeral: "numeral a \<le> x \<Longrightarrow> numeral a \<le> py_round x n"
  using py_round_mono [of "numeral a" x n] by simp

lemma py_round_le_numeral: "x \<le> numeral b \<Longrightarrow> py_round x n \<le> numeral b"
  using py_round_mono [of x "numeral b" n] by simp

lemma py_round_nonneg: "0 \<le> x \<Longrightarrow> 0 \<le> py_round x n"
  using py_round_mono [of 0 x n] by simp

lemma emitted_by_key:
  "emitted_by U ts hv r \<Longrightarrow> timestamp r = isoformat ts \<and> hive_id r = id_hive hv"
  by (erule emitted_by_emit) (simp add: emit_def)

lemma emitted_by_ranges:
  assumes "emitted_by U ts hv r"
  shows "0 \<le> activity_level r \<and> activity_level r \<le> 100 \<and>
         30 \<le> humidity r \<and> humidity r \<le> 90"
proof -
  from assms obtain g tot eff where r: "r = emit ts hv (fst (simulate ts hv g)) tot eff"
    by (rule emitted_by_emit)
  have "0 \<le> activity_level r"
    using simulate_activity_range [of ts hv g] by (simp add: r emit_def py_round_nonneg)
  moreover have "activity_level r \<le> 100"
    using simulate_activity_range [of ts hv g]
    by (simp add: r emit_def py_round_le_numeral)
  moreover have "30 \<le> humidity r \<and> humidity r \<le> 90"
    using simulate_humidity_range [of ts hv g]
    by (simp add: r emit_def py_round_ge_numeral py_round_le_numeral)
  ultimately show ?thesis by simp
qed

lemma list_all2_ball:
  assumes "list_all2 P xs ys" and "\<And>x y. P x y \<Longrightarrow> Q x"
  shows "\<forall>x \<in> set xs. Q x"
  using assms by (induction rule: list_all2_induct) auto

lemma list_all2_weaken:
  assumes "list_all2 P xs ys" and "\<And>x y. P x y \<Longrightarrow> Q x y"
  shows "list_all2 Q xs ys"
  using assms by (induction rule: list_all2_induct) auto

lemma list_all2_map_eq:
  assumes "list_all2 P xs ys" and "\<And>x y. P x y \<Longrightarrow> f x = h y"
  shows "map f xs = map h ys"
  using assms by (induction rule: list_all2_induct) auto

lemma product_concat: "List.product xs ys = concat (map (\<lambda>x. map (Pair x) ys) xs)"
  by (induction xs) simp_all

lemma product_map_map:
  "List.product (map f xs) (map h ys) = map (\<lambda>(x, y). (f x, h y)) (List.product xs ys)"
  by (induction xs) simp_all

lemma generate_keys:
  "\<exists>rows. generate_beehive_data time_range g = Inr (rows, hives_config) \<and>
     map (\<lambda>r. (timestamp r, hive_id r)) rows =
       List.product (map isoformat time_range) (map id_hive hives_config)"
proof -
  from generate_rows [of time_range g] obtain rows where
    g: "generate_beehive_data time_range g = Inr (rows, hives_config)" and
    l: "list_all2 (\<lambda>r (ts, hv). emitted_by (unit_samples g) ts hv r) rows
          (List.product time_range hives_config)"
    by blast
  from l have "map (\<lambda>r. (timestamp r, hive_id r)) rows =
      map (\<lambda>(ts, hv). (isoformat ts, id_hive hv)) (List.product time_range hives_config)"
    by (rule list_all2_map_eq) (auto dest: emitted_by_key)
  with g show ?thesis by (simp add: product_map_map)
qed

lemma sorted_wrt_replicate: "R x x \<Longrightarrow> sorted_wrt R (replicate n x)"
  by (induction n) auto

lemma sorted_wrt_product_fst:
  assumes "\<And>x. R x x" "sorted_wrt R xs"
  shows "sorted_wrt R (map fst (List.product xs ys))"
  using assms(2)
proof (induction xs)
  case Nil
  then show ?case by simp
next
  case (Cons x xs)
  have "map fst (map (Pair x) ys) = replicate (length ys) x"
    by (induction ys) simp_all
  with Cons assms(1) show ?case
    by (auto simp: sorted_wrt_append sorted_wrt_replicate)
qed

text \<open>
  C7. The number of generated rows is the number of timestamps of the time grid times
  the number of hives, which is 7; the (timestamp, hive) keys of the rows are exactly the
  pairs of a grid timestamp and a hive, and each pair occurs once when the grid's
  timestamps are distinct.
\<close>

theorem row_count:
  "\<exists>rows. generate_beehive_data time_range g = Inr (rows, hives_config) \<and>
     length hives_config = 7 \<and> length rows = length time_range * 7 \<and>
     set (map (\<lambda>r. (timestamp r, hive_id r)) rows) =
       set (map isoformat time_range) \<times> set (map id_hive hives_config) \<and>
     (distinct (map isoformat time_range) \<longrightarrow>
        distinct (map (\<lambda>r. (timestamp r, hive_id r)) rows))"
proof -
  from generate_keys [of time_range g] obtain rows where
    g: "generate_beehive_data time_range g = Inr (rows, hives_config)" and
    k: "map (\<lambda>r. (timestamp r, hive_id r)) rows =
          List.product (map isoformat time_range) (map id_hive hives_config)"
    by blast
  have seven: "length hives_config = 7"
    by (simp add: hives_config_def)
  have "length rows = length (map (\<lambda>r. (timestamp r, hive_id r)) rows)"
    by simp
  also have "\<dots> = length time_range * 7"
    unfolding k by (simp add: seven)
  finally have len: "length rows = length time_range * 7" .
  have ids: "distinct (map id_hive hives_config)"
    by (simp add: hives_config_def)
  have "distinct (map isoformat time_range) \<longrightarrow>
        distinct (map (\<lambda>r. (timestamp r, hive_id r)) rows)"
    unfolding k using ids by (simp add: distinct_product)
  moreover have "set (map (\<lambda>r. (timestamp r, hive_id r)) rows) =
       set (map isoformat time_range) \<times> set (map id_hive hives_config)"
    unfolding k by simp
  ultimately show ?thesis using g seven len by blast
qed

theorem row_count_witness:
  "distinct (map isoformat [night_time]) \<and>
   (\<exists>rows. generate_beehive_data [night_time] zero_rng = Inr (rows, hives_config) \<and> length rows = 7 \<and>
      distinct (map (\<lambda>r. (timestamp r, hive_id r)) rows))"
  using row_count [of "[night_time]" zero_rng] by auto

text \<open>
  C8. The rows are timestamp-major and hive-minor: the keys of the rows are those of the
  outer loop over the time grid and the inner loop over the table in declaration order;
  hence under any reflexive order in which the grid is ascending, the row timestamps are
  ascending.
\<close>

theorem row_order:
  "\<exists>rows. generate_beehive_data time_range g = Inr (rows, hives_config) \<and>
     map (\<lambda>r. (timestamp r, hive_id r)) rows =
       concat (map (\<lambda>ts. map (\<lambda>hv. (isoformat ts, id_hive hv)) hives_config) time_range) \<and>
     (\<forall>R. (\<forall>x. R x x) \<longrightarrow> sorted_wrt R (map isoformat time_range) \<longrightarrow>
        sorted_wrt R (map timestamp rows))"
proof -
  from generate_keys [of time_range g] obtain rows where
    g: "generate_beehive_data time_range g = Inr (rows, hives_config)" and
    k: "map (\<lambda>r. (timestamp r, hive_id r)) rows =
          List.product (map isoformat time_range) (map id_hive hives_config)"
    by blast
  have c: "map (\<lambda>r. (timestamp r, hive_id r)) rows =
       concat (map (\<lambda>ts. map (\<lambda>hv. (isoformat ts, id_hive hv)) hives_config) time_range)"
    unfolding k product_concat by (simp add: comp_def)
  have "map timestamp rows = map fst (map (\<lambda>r. (timestamp r, hive_id r)) rows)"
    by (simp add: comp_def)
  then have t: "map timestamp rows =
      map fst (List.product (map isoformat time_range) (map id_hive hives_config))"
    by (simp only: k)
  have "sorted_wrt R (map timestamp rows)"
    if "\<forall>x. R x x" "sorted_wrt R (map isoformat time_range)" for R
    unfolding t using that by (intro sorted_wrt_product_fst) simp_all
  with g c show ?thesis by blast
qed

theorem row_order_witness:
  "sorted_wrt (\<lambda>a b. a = b \<or> (a = isoformat night_time \<and> b = isoformat dawn_time))
     (map isoformat [night_time, dawn_time]) \<and>
   (\<exists>rows. generate_beehive_data [night_time, dawn_time] zero_rng = Inr (rows, hives_config) \<and>
      sorted_wrt (\<lambda>a b. a = b \<or> (a = isoformat night_time \<and> b = isoformat dawn_time))
        (map timestamp rows))"
proof -
  let ?R = "\<lambda>a b. a = b \<or> (a = isoformat night_time \<and> b = isoformat dawn_time)"
  have s: "sorted_wrt ?R (map isoformat [night_time, dawn_time])"
    by simp
  have r: "?R x x" for x
    by simp
  from row_order [of "[night_time, dawn_time]" zero_rng] obtain rows where
    g: "generate_beehive_data [night_time, dawn_time] zero_rng = Inr (rows, hives_config)" and
    o: "\<forall>R. (\<forall>x. R x x) \<longrightarrow> sorted_wrt R (map isoformat [night_time, dawn_time]) \<longrightarrow>
          sorted_wrt R (map timestamp rows)"
    by blast
  have "sorted_wrt ?R (map timestamp rows)"
    by (rule o [rule_format, of ?R, OF r s])
  with s g show ?thesis by blast
qed

lemma generate_nonempty:
  "generate_beehive_data (ts # tss) g = Inr (rows, cfg) \<Longrightarrow> rows \<noteq> []"
  using generate_keys [of "ts # tss" g] by (auto simp: hives_config_def)

text \<open>
  C5. Whatever the random source delivers, the activity lies in [0,100] and the humidity
  in [30,90], both as computed by the loop body and as emitted in every generated row.
\<close>

theorem clamped_ranges:
  "(0 \<le> activity_v (fst (simulate ts hv g)) \<and> activity_v (fst (simulate ts hv g)) \<le> 100 \<and>
    30 \<le> humidity_v (fst (simulate ts hv g)) \<and> humidity_v (fst (simulate ts hv g)) \<le> 90) \<and>
   (\<exists>rows. generate_beehive_data time_range g = Inr (rows, hives_config) \<and>
      (\<forall>r \<in> set rows. 0 \<le> activity_level r \<and> activity_level r \<le> 100 \<and>
                        30 \<le> humidity r \<and> humidity r \<le> 90))"
proof -
  from generate_rows [of time_range g] obtain rows where
    g: "generate_beehive_data time_range g = Inr (rows, hives_config)" and
    l: "list_all2 (\<lambda>r (ts, hv). emitted_by (unit_samples g) ts hv r) rows
          (List.product time_range hives_config)"
    by blast
  from l have "\<forall>r \<in> set rows. 0 \<le> activity_level r \<and> activity_level r \<le> 100 \<and>
                        30 \<le> humidity r \<and> humidity r \<le> 90"
    by (rule list_all2_ball) (auto dest: emitted_by_ranges)
  with g show ?thesis
    using simulate_activity_range [of ts hv g] simulate_humidity_range [of ts hv g] by blast
qed

theorem clamped_ranges_witness:
  "\<exists>rows. generate_beehive_data [night_time] zero_rng = Inr (rows, hives_config) \<and> rows \<noteq> [] \<and>
     0 \<le> activity_level (hd rows) \<and> activity_level (hd rows) \<le> 100 \<and>
     30 \<le> humidity (hd rows) \<and> humidity (hd rows) \<le> 90"
proof -
  from clamped_ranges [of night_time "hd hives_config" zero_rng "[night_time]"] obtain rows where
    g: "generate_beehive_data [night_time] zero_rng = Inr (rows, hives_config)" and
    b: "\<forall>r \<in> set rows. 0 \<le> activity_level r \<and> activity_level r \<le> 100 \<and>
                        30 \<le> humidity r \<and> humidity r \<le> 90"
    by blast
  from g have "rows \<noteq> []" by (rule generate_nonempty)
  then have "hd rows \<in> set rows" by simp
  with b g \<open>rows \<noteq> []\<close> show ?thesis by blast
qed

lemma unit_samples_zero_rng: "unit_samples zero_rng"
  by (simp add: unit_samples_def zero_rng_def)

lemma unit_samples_solstice_rng: "unit_samples solstice_rng"
  by (simp add: unit_samples_def solstice_rng_def)

lemma hive_body_frame:
  assumes "hive_body ts hv s = Inr s'" and "k \<noteq> id_hive hv"
  shows "cumulative s' k = cumulative s k"
proof (cases "cumulative s (id_hive hv)")
  case None
  with assms(1) show ?thesis by (simp add: hive_body_None)
next
  case (Some a)
  from assms show ?thesis unfolding hive_body_Some [OF Some] by auto
qed

text \<open>
  C9. One execution of the loop body for a hive changes only that hive's entry of the
  cumulative_production accumulator: every other key keeps its value.
\<close>

theorem accumulator_frame:
  "hive_body ts hv s = Inr s' \<Longrightarrow> k \<noteq> id_hive hv \<Longrightarrow> cumulative s' k = cumulative s k"
  by (rule hive_body_frame)

theorem accumulator_frame_witness:
  "\<exists>s'. hive_body night_time (hd hives_config) (initial_state hives_config zero_rng) = Inr s' \<and>
     ''worker_001'' \<noteq> id_hive (hd hives_config) \<and>
     cumulative s' ''worker_001'' = Some 0"
proof -
  let ?s = "initial_state hives_config zero_rng"
  have a: "cumulative ?s (id_hive (hd hives_config)) = Some 0"
    by (simp add: initial_state_def hives_config_def)
  have k: "''worker_001'' \<noteq> id_hive (hd hives_config)"
    by (simp add: hives_config_def)
  have w: "cumulative ?s ''worker_001'' = Some 0"
    by (simp add: initial_state_def hives_config_def)
  obtain s' where b: "hive_body night_time (hd hives_config) ?s = Inr s'"
    using hive_body_Some [OF a] by blast
  from accumulator_frame [OF b k] w have "cumulative s' ''worker_001'' = Some 0"
    by simp
  with b k show ?thesis by blast
qed

text \<open>
  C4. For a master hive at hour 12 of day 172, when the simulated activity is 100, the
  temperature lies in [33,37] and the humidity in [45,65], the hourly production is
  strictly positive and at most 0.008 * 1.5 * 1.3 * seasonal_factor 172 (the uniform
  samples lying in the unit interval, so that the multiplier lies in [0.7,1.3]).
\<close>

theorem solstice_production_bounds:
  assumes "type_hive hv = ''master''" and "hour ts = 12" and "tm_yday ts = 172"
    and "sg = fst (simulate ts hv g)" and "unit_samples g"
    and "activity_v sg = 100"
    and "33 \<le> temperature_v sg" and "temperature_v sg \<le> 37"
    and "45 \<le> humidity_v sg" and "humidity_v sg \<le> 65"
  shows "0 < hourly_production_v sg \<and>
         hourly_production_v sg \<le> 0.008 * 1.5 * 1.3 * seasonal_factor 172"
proof -
  let ?m = "fst (random_uniform 0.7 1.3 g)"
  let ?sf = "seasonal_factor 172"
  have act: "active_hours (hour ts)"
    by (simp add: assms(2) active_hours_def)
  have m: "0.7 \<le> ?m" "?m \<le> 1.3"
    using random_uniform_range [of g "0.7" "1.3"] assms(5) by simp_all
  have sf: "1 / 2 \<le> ?sf"
    using seasonal_factor_range [of 172] by simp
  have "hourly_production_v sg =
      base_hourly_production hv * temp_factor (temperature_v sg) *
      humidity_factor (humidity_v sg) * (activity_v sg / 100) * seasonal_factor (tm_yday ts) * ?m"
    unfolding assms(4) by (rule simulate_active [OF act])
  then have hp: "hourly_production_v sg = 0.012 * (?sf * ?m)"
    using assms
    by (simp add: base_hourly_production_def production_multiplier_def temp_factor_def
        humidity_factor_def)
  define x where "x = ?sf * ?m"
  have pos: "0 < x"
    unfolding x_def using sf m(1) by (intro mult_pos_pos) simp_all
  have le: "x \<le> ?sf * 1.3"
    unfolding x_def using sf m(2) by (intro mult_left_mono) simp_all
  have "0 < 0.012 * x"
    using pos by simp
  moreover have "0.012 * x \<le> 0.008 * 1.5 * 1.3 * ?sf"
    using le by simp
  ultimately show ?thesis
    unfolding hp x_def by blast
qed

theorem solstice_production_bounds_witness:
  "type_hive (hd hives_config) = ''master'' \<and> hour noon_time = 12 \<and> tm_yday noon_time = 172 \<and>
   unit_samples solstice_rng \<and>
   activity_v (fst (simulate noon_time (hd hives_config) solstice_rng)) = 100 \<and>
   33 \<le> temperature_v (fst (simulate noon_time (hd hives_config) solstice_rng)) \<and>
   temperature_v (fst (simulate noon_time (hd hives_config) solstice_rng)) \<le> 37 \<and>
   45 \<le> humidity_v (fst (simulate noon_time (hd hives_config) solstice_rng)) \<and>
   humidity_v (fst (simulate noon_time (hd hives_config) solstice_rng)) \<le> 65 \<and>
   0 < hourly_production_v (fst (simulate noon_time (hd hives_config) solstice_rng)) \<and>
   hourly_production_v (fst (simulate noon_time (hd hives_config) solstice_rng))
     \<le> 0.008 * 1.5 * 1.3 * seasonal_factor 172"
proof -
  let ?sg = "fst (simulate noon_time (hd hives_config) solstice_rng)"
  let ?c = "sin (2 * pi * 172 / 365)"
  have c: "- 1 \<le> ?c" "?c \<le> 1"
    by (rule sin_ge_minus_one, rule sin_le_one)
  have h1: "type_hive (hd hives_config) = ''master''"
    by (simp add: hives_config_def)
  have h2: "hour noon_time = 12" and h3: "tm_yday noon_time = 172"
    by (simp_all add: noon_time_def)
  have a: "activity_v ?sg = 100"
    by (simp add: simulate_unfold Let_def solstice_rng_def numeral_3_eq_3 h2 h3 base_activity_def)
  have t: "temperature_v ?sg = 35 + 2 * ?c"
    by (simp add: simulate_unfold Let_def solstice_rng_def numeral_3_eq_3 h2 h3 base_temp_def)
  have "base_humidity 12 172 = 65 + 5 * ?c"
    by (simp add: base_humidity_def)
  then have h: "humidity_v ?sg = max 30 (min 90 (55 + 5 * ?c))"
    by (simp add: simulate_unfold Let_def solstice_rng_def numeral_3_eq_3 h2 h3)
  have aux: "45 \<le> max 30 (min 90 (55 + 5 * s)) \<and> max 30 (min 90 (55 + 5 * s)) \<le> 65 \<and>
      33 \<le> 35 + 2 * s \<and> 35 + 2 * s \<le> 37"
    if "- 1 \<le> s" "s \<le> 1" for s :: real
    using that by auto
  have hm: "45 \<le> humidity_v ?sg" "humidity_v ?sg \<le> 65"
    unfolding h using aux [OF c] by blast+
  have tm: "33 \<le> temperature_v ?sg" "temperature_v ?sg \<le> 37"
    unfolding t using aux [OF c] by blast+
  from solstice_production_bounds [OF h1 h2 h3 refl unit_samples_solstice_rng a tm hm]
    h1 h2 h3 unit_samples_solstice_rng a tm hm
  show ?thesis by blast
qed

lemma generate_hd:
  assumes "generate_beehive_data (ts # tss) g = Inr (rows, cfg)"
  shows "hd rows =
     emit ts (hd hives_config) (fst (simulate ts (hd hives_config) g))
       (0 + hourly_production_v (fst (simulate ts (hd hives_config) g)))
       (if activity_v (fst (simulate ts (hd hives_config) g)) > 0
        then hourly_production_v (fst (simulate ts (hd hives_config) g)) /
             (activity_v (fst (simulate ts (hd hives_config) g)) / 100)
        else 0)"
proof -
  let ?s0 = "initial_state hives_config g"
  let ?hv = "hd hives_config"
  have cfg: "hives_config = ?hv # tl hives_config"
    by (simp add: hives_config_def)
  have a: "cumulative ?s0 (id_hive ?hv) = Some 0"
    by (simp add: initial_state_def hives_config_def)
  have d0: "data ?s0 = []" and r0: "random_state ?s0 = g"
    by (simp_all add: initial_state_def)
  define s1 where "s1 = projr (hive_body ts ?hv ?s0)"
  have b: "hive_body ts ?hv ?s0 = Inr s1"
    by (simp add: s1_def hive_body_Some [OF a])
  have d1: "data s1 =
     [emit ts ?hv (fst (simulate ts ?hv g))
       (0 + hourly_production_v (fst (simulate ts ?hv g)))
       (if activity_v (fst (simulate ts ?hv g)) > 0
        then hourly_production_v (fst (simulate ts ?hv g)) /
             (activity_v (fst (simulate ts ?hv g)) / 100)
        else 0)]"
    by (simp add: s1_def hive_body_Some [OF a] d0 r0)
  have mem: "id_hive ?hv \<in> id_hive ` set hives_config"
    by (simp add: hives_config_def)
  have dom1: "dom (cumulative s1) = id_hive ` set hives_config"
    using mem by (auto simp: s1_def hive_body_Some [OF a] dom_initial_state)
  then have "id_hive ` set (tl hives_config) \<subseteq> dom (cumulative s1)"
    by (metis cfg image_mono set_subset_Cons)
  from hives_loop_rows [OF this, of False ts] obtain s2 rows2 where
    l2: "hives_loop ts (tl hives_config) s1 = Inr s2" "data s2 = data s1 @ rows2"
      "dom (cumulative s2) = dom (cumulative s1)"
    by auto
  have "id_hive ` set hives_config \<subseteq> dom (cumulative s2)"
    using l2(3) dom1 by simp
  from time_loop_rows [OF this, of False tss] obtain s3 rows3 where
    l3: "time_loop hives_config tss s2 = Inr s3" "data s3 = data s2 @ rows3"
    by auto
  have "hives_loop ts hives_config ?s0 = Inr s2"
    by (subst cfg) (simp add: b l2(1))
  then have "time_loop hives_config (ts # tss) ?s0 = Inr s3"
    by (simp add: l3(1))
  with assms have "rows = data s3"
    by (simp add: generate_beehive_data_def)
  then show ?thesis
    by (simp add: l3(2) l2(2) d1)
qed

lemma emitted_by_efficiency:
  assumes "emitted_by U ts hv r"
  shows "efficiency_rule ts hv r"
proof -
  from assms obtain g tot where
    r: "r = emit ts hv (fst (simulate ts hv g)) tot
           (if activity_v (fst (simulate ts hv g)) > 0
            then hourly_production_v (fst (simulate ts hv g)) /
                 (activity_v (fst (simulate ts hv g)) / 100)
            else 0)"
    by (rule emitted_by_emit)
  let ?sg = "fst (simulate ts hv g)"
  let ?e = "if activity_v ?sg > 0 then hourly_production_v ?sg / (activity_v ?sg / 100) else 0"
  have "efficiency (hourly_production_v ?sg) (activity_v ?sg) = Inr ?e"
    by (rule efficiency_Inr)
  moreover have "activity_level r = py_round (activity_v ?sg) 0"
    by (simp add: r emit_def)
  moreover have "production_efficiency r = py_round ?e 4"
    by (simp add: r emit_def)
  moreover have "activity_v ?sg = 0 \<longrightarrow> production_efficiency r = 0"
    by (simp add: r emit_def)
  ultimately show ?thesis
    unfolding efficiency_rule_def by blast
qed

lemma hive_body_idle:
  assumes "hive_body ts hv s = Inr s'"
    and "activity_v (fst (simulate ts hv (random_state s))) = 0"
  shows "production_efficiency (last (data s')) = 0"
proof (cases "cumulative s (id_hive hv)")
  case None
  with assms(1) show ?thesis by (simp add: hive_body_None)
next
  case (Some a)
  from assms show ?thesis
    unfolding hive_body_Some [OF Some] by (auto simp: emit_def)
qed

text \<open>
  C3, as amended. The efficiency computation never divides by zero; a loop body whose
  unrounded activity is 0 emits production_efficiency 0; and every generated row carries
  the rounding of the guarded quotient. (The guard reads the unrounded activity, so an
  emitted activity_level of 0 does not force the emitted efficiency to 0.)
\<close>

theorem efficiency_guard:
  "efficiency hp a \<noteq> Inl ZeroDivisionError \<and>
   (hive_body ts hv s = Inr s' \<longrightarrow>
      activity_v (fst (simulate ts hv (random_state s))) = 0 \<longrightarrow>
      production_efficiency (last (data s')) = 0) \<and>
   (\<exists>rows. generate_beehive_data time_range g = Inr (rows, hives_config) \<and>
      list_all2 (\<lambda>r (ts, hv). efficiency_rule ts hv r) rows
        (List.product time_range hives_config))"
proof -
  from generate_rows [of time_range g] obtain rows where
    g: "generate_beehive_data time_range g = Inr (rows, hives_config)" and
    l: "list_all2 (\<lambda>r (ts, hv). emitted_by (unit_samples g) ts hv r) rows
          (List.product time_range hives_config)"
    by blast
  from l have "list_all2 (\<lambda>r (ts, hv). efficiency_rule ts hv r) rows
        (List.product time_range hives_config)"
    by (rule list_all2_weaken) (auto intro: emitted_by_efficiency)
  with g have "\<exists>rows. generate_beehive_data time_range g = Inr (rows, hives_config) \<and>
      list_all2 (\<lambda>r (ts, hv). efficiency_rule ts hv r) rows
        (List.product time_range hives_config)"
    by blast
  moreover have "efficiency hp a \<noteq> Inl ZeroDivisionError"
    by (simp add: efficiency_Inr)
  ultimately show ?thesis
    using hive_body_idle [of ts hv s s'] by blast
qed

theorem efficiency_guard_witness:
  "\<exists>s'. hive_body night_time (hd hives_config) (initial_state hives_config still_rng) = Inr s' \<and>
     activity_v (fst (simulate night_time (hd hives_config) still_rng)) = 0 \<and>
     production_efficiency (last (data s')) = 0"
proof -
  let ?s = "initial_state hives_config still_rng"
  have a: "cumulative ?s (id_hive (hd hives_config)) = Some 0"
    by (simp add: initial_state_def hives_config_def)
  have r: "random_state ?s = still_rng"
    by (simp add: initial_state_def)
  obtain s' where b: "hive_body night_time (hd hives_config) ?s = Inr s'"
    using hive_body_Some [OF a] by blast
  have z: "activity_v (fst (simulate night_time (hd hives_config) still_rng)) = 0"
    by (simp add: simulate_unfold Let_def still_rng_def numeral_3_eq_3 night_time_def
        base_activity_def)
  from efficiency_guard [of 0 0 night_time "hd hives_config" ?s s' "[]" still_rng] b z r
  have "production_efficiency (last (data s')) = 0"
    by simp
  with b z show ?thesis by blast
qed

lemma factors_product_lower:
  "56 / 100 \<le> temp_factor t * humidity_factor h"
proof -
  have "(7 / 10) * (8 / 10) \<le> temp_factor t * humidity_factor h"
    using temp_factor_range [of t] humidity_factor_range [of h]
    by (intro mult_mono) simp_all
  then show ?thesis by simp
qed

lemma factors_product_upper:
  "temp_factor t * humidity_factor h \<le> 1"
proof -
  have "temp_factor t * humidity_factor h \<le> 1 * 1"
    using temp_factor_range [of t] humidity_factor_range [of h]
    by (intro mult_mono) simp_all
  then show ?thesis by simp
qed

lemma dawn_signals:
  "activity_v (fst (simulate dawn_time (hd hives_config) drowsy_rng)) = 3 / 10"
  "hourly_production_v (fst (simulate dawn_time (hd hives_config) drowsy_rng)) =
     (temp_factor (temperature_v (fst (simulate dawn_time (hd hives_config) drowsy_rng))) *
      humidity_factor (humidity_v (fst (simulate dawn_time (hd hives_config) drowsy_rng)))) *
     (2268 / 100000000)"
proof -
  let ?sg = "fst (simulate dawn_time (hd hives_config) drowsy_rng)"
  have act: "active_hours (hour dawn_time)"
    by (simp add: active_hours_def dawn_time_def)
  show a: "activity_v ?sg = 3 / 10"
    by (simp add: simulate_unfold Let_def drowsy_rng_def numeral_3_eq_3 dawn_time_def
        base_activity_def)
  have sf: "seasonal_factor (tm_yday dawn_time) = 9 / 10"
    by (simp add: seasonal_factor_def dawn_time_def)
  have b: "base_hourly_production (hd hives_config) = 12 / 1000"
    by (simp add: base_hourly_production_def production_multiplier_def hives_config_def)
  have m: "fst (random_uniform 0.7 1.3 drowsy_rng) = 7 / 10"
    by (simp add: random_uniform_def drowsy_rng_def)
  show "hourly_production_v ?sg =
     (temp_factor (temperature_v ?sg) * humidity_factor (humidity_v ?sg)) * (2268 / 100000000)"
    unfolding simulate_active [OF act, of "hd hives_config" drowsy_rng] a sf b m
    by simp
qed

text \<open>
  C3 as stated fails: at hour 6 of day 80 with activity noise -49.7 the first row has
  activity 0.3, emitted as activity_level 0, while its emitted production_efficiency is
  at least 0.004.
\<close>

theorem idle_activity_counterexample:
  "\<not> isl (generate_beehive_data [dawn_time] drowsy_rng) \<and>
   activity_level (hd (fst (projr (generate_beehive_data [dawn_time] drowsy_rng)))) = 0 \<and>
   production_efficiency (hd (fst (projr (generate_beehive_data [dawn_time] drowsy_rng)))) \<noteq> 0"
proof -
  let ?sg = "fst (simulate dawn_time (hd hives_config) drowsy_rng)"
  let ?f = "temp_factor (temperature_v ?sg) * humidity_factor (humidity_v ?sg)"
  from generate_rows [of "[dawn_time]" drowsy_rng] obtain rows where
    g: "generate_beehive_data [dawn_time] drowsy_rng = Inr (rows, hives_config)"
    by blast
  note hd = generate_hd [OF g]
  have al: "activity_level (hd rows) = 0"
    by (simp add: hd emit_def dawn_signals(1) py_round_def round_half_even_def)
  have q: "hourly_production_v ?sg / (activity_v ?sg / 100) = ?f * (756 / 100000)"
    unfolding dawn_signals by simp
  have p: "0 < activity_v ?sg"
    by (simp add: dawn_signals(1))
  have e: "(if 0 < activity_v ?sg then hourly_production_v ?sg / (activity_v ?sg / 100) else 0) =
      ?f * (756 / 100000)"
    by (simp only: p if_True q)
  have "production_efficiency (hd rows) =
      py_round (if 0 < activity_v ?sg
                then hourly_production_v ?sg / (activity_v ?sg / 100) else 0) 4"
    unfolding hd emit_def by (simp only: reading.select_convs)
  then have pe: "production_efficiency (hd rows) = py_round (?f * (756 / 100000)) 4"
    by (simp only: e)
  define f where "f = ?f"
  have "56 / 100 \<le> f"
    unfolding f_def by (rule factors_product_lower)
  then have "4 / 1000 \<le> f * (756 / 100000)"
    by simp
  then have "4 / 1000 \<le> ?f * (756 / 100000)"
    unfolding f_def .
  from py_round_mono [OF this, of 4] have "4 / 1000 \<le> py_round (?f * (756 / 100000)) 4"
    by (simp add: py_round_def round_half_even_def)
  with pe have "production_efficiency (hd rows) \<noteq> 0"
    by simp
  with al show ?thesis by (simp add: g)
qed

lemma hives_loop_calls:
  assumes inv: "\<And>ts hv g. I g \<Longrightarrow> I (snd (simulate ts hv g))"
    and "id_hive ` set hvs \<subseteq> dom (cumulative s)" and "I (random_state s)"
  shows "\<exists>s' rows. hives_loop ts hvs s = Inr s' \<and> data s' = data s @ rows \<and>
           dom (cumulative s') = dom (cumulative s) \<and> I (random_state s') \<and>
           list_all2 (\<lambda>r c. call_row c r \<and> I (random_state (call_state c)))
             rows (body_calls ts hvs s) \<and>
           map (\<lambda>c. (call_time c, call_hive c)) (body_calls ts hvs s) = map (Pair ts) hvs"
  using assms(2,3)
proof (induction hvs arbitrary: s)
  case Nil
  then show ?case by simp
next
  case (Cons hv hvs)
  from Cons.prems(1) obtain a where a: "cumulative s (id_hive hv) = Some a"
    by auto
  define s1 where "s1 = projr (hive_body ts hv s)"
  let ?c = "\<lparr>call_time = ts, call_hive = hv, call_state = s\<rparr>"
  have body: "hive_body ts hv s = Inr s1"
    by (simp add: s1_def hive_body_Some [OF a])
  have d1: "data s1 = data s @ [last (data s1)]"
    by (simp add: s1_def hive_body_Some [OF a])
  have dom1: "dom (cumulative s1) = dom (cumulative s)"
    using a by (auto simp: s1_def hive_body_Some [OF a])
  have i1: "I (random_state s1)"
    using inv [OF Cons.prems(2), of ts hv] by (simp add: s1_def hive_body_Some [OF a])
  have c1: "call_row ?c (last (data s1)) \<and> I (random_state (call_state ?c))"
    unfolding call_row_def using body d1 Cons.prems(2) by simp
  from Cons.prems(1) dom1 have "id_hive ` set hvs \<subseteq> dom (cumulative s1)"
    by simp
  from Cons.IH [OF this i1] obtain s' rows where
    IH: "hives_loop ts hvs s1 = Inr s'" "data s' = data s1 @ rows"
      "dom (cumulative s') = dom (cumulative s1)" "I (random_state s')"
      "list_all2 (\<lambda>r c. call_row c r \<and> I (random_state (call_state c)))
         rows (body_calls ts hvs s1)"
      "map (\<lambda>c. (call_time c, call_hive c)) (body_calls ts hvs s1) = map (Pair ts) hvs"
    by blast
  have calls: "body_calls ts (hv # hvs) s = ?c # body_calls ts hvs s1"
    by (simp add: body)
  have "hives_loop ts (hv # hvs) s = Inr s'"
    by (simp add: body IH(1))
  moreover have "data s' = data s @ (last (data s1) # rows)"
    using IH(2) d1 by (metis append.assoc append_Cons append_Nil)
  moreover have "dom (cumulative s') = dom (cumulative s)"
    using IH(3) dom1 by simp
  moreover note IH(4)
  moreover have "list_all2 (\<lambda>r c. call_row c r \<and> I (random_state (call_state c)))
      (last (data s1) # rows) (body_calls ts (hv # hvs) s)"
    unfolding calls using c1 IH(5) by simp
  moreover have "map (\<lambda>c. (call_time c, call_hive c)) (body_calls ts (hv # hvs) s) =
      map (Pair ts) (hv # hvs)"
    unfolding calls using IH(6) by simp
  ultimately show ?case
    by (intro exI [of _ s'] exI [of _ "last (data s1) # rows"]) (simp only: simp_thms)
qed

lemma time_loop_calls:
  assumes inv: "\<And>ts hv g. I g \<Longrightarrow> I (snd (simulate ts hv g))"
    and "id_hive ` set hvs \<subseteq> dom (cumulative s)" and "I (random_state s)"
  shows "\<exists>s' rows. time_loop hvs tss s = Inr s' \<and> data s' = data s @ rows \<and>
           dom (cumulative s') = dom (cumulative s) \<and> I (random_state s') \<and>
           list_all2 (\<lambda>r c. call_row c r \<and> I (random_state (call_state c)))
             rows (run_calls hvs tss s) \<and>
           map (\<lambda>c. (call_time c, call_hive c)) (run_calls hvs tss s) = List.product tss hvs"
  using assms(2,3)
proof (induction tss arbitrary: s)
  case Nil
  then show ?case by simp
next
  case (Cons ts tss)
  from hives_loop_calls [of I, OF inv Cons.prems, of ts] obtain s1 rows1 where
    H: "hives_loop ts hvs s = Inr s1" "data s1 = data s @ rows1"
      "dom (cumulative s1) = dom (cumulative s)" "I (random_state s1)"
      "list_all2 (\<lambda>r c. call_row c r \<and> I (random_state (call_state c)))
         rows1 (body_calls ts hvs s)"
      "map (\<lambda>c. (call_time c, call_hive c)) (body_calls ts hvs s) = map (Pair ts) hvs"
    by blast
  from Cons.prems(1) H(3) have "id_hive ` set hvs \<subseteq> dom (cumulative s1)"
    by simp
  from Cons.IH [OF this H(4)] obtain s' rows where
    IH: "time_loop hvs tss s1 = Inr s'" "data s' = data s1 @ rows"
      "dom (cumulative s') = dom (cumulative s1)" "I (random_state s')"
      "list_all2 (\<lambda>r c. call_row c r \<and> I (random_state (call_state c)))
         rows (run_calls hvs tss s1)"
      "map (\<lambda>c. (call_time c, call_hive c)) (run_calls hvs tss s1) = List.product tss hvs"
    by blast
  have calls: "run_calls hvs (ts # tss) s = body_calls ts hvs s @ run_calls hvs tss s1"
    by (simp add: H(1))
  have "time_loop hvs (ts # tss) s = Inr s'"
    by (simp add: H(1) IH(1))
  moreover have "data s' = data s @ (rows1 @ rows)"
    by (simp add: IH(2) H(2))
  moreover have "dom (cumulative s') = dom (cumulative s)"
    using IH(3) H(3) by simp
  moreover note IH(4)
  moreover have "list_all2 (\<lambda>r c. call_row c r \<and> I (random_state (call_state c)))
      (rows1 @ rows) (run_calls hvs (ts # tss) s)"
    unfolding calls using H(5) IH(5) by (rule list_all2_appendI)
  moreover have "map (\<lambda>c. (call_time c, call_hive c)) (run_calls hvs (ts # tss) s) =
      List.product (ts # tss) hvs"
    unfolding calls using H(6) IH(6) by simp
  ultimately show ?case
    by (intro exI [of _ s'] exI [of _ "rows1 @ rows"]) (simp only: simp_thms)
qed

lemma generate_calls:
  assumes inv: "\<And>ts hv g. I g \<Longrightarrow> I (snd (simulate ts hv g))" and "I g"
  shows "\<exists>rows. generate_beehive_data time_range g = Inr (rows, hives_config) \<and>
     list_all2 (\<lambda>r c. call_row c r \<and> I (random_state (call_state c)))
       rows (run_calls hives_config time_range (initial_state hives_config g)) \<and>
     map (\<lambda>c. (call_time c, call_hive c))
       (run_calls hives_config time_range (initial_state hives_config g)) =
       List.product time_range hives_config"
proof -
  let ?s = "initial_state hives_config g"
  have d: "id_hive ` set hives_config \<subseteq> dom (cumulative ?s)"
    by (simp add: dom_initial_state)
  have i: "I (random_state ?s)"
    using assms(2) by (simp add: initial_state_def)
  from time_loop_calls [of I, OF inv d i, of time_range] obtain s' rows where
    t: "time_loop hives_config time_range ?s = Inr s'" and e: "data s' = data ?s @ rows" and
    l: "list_all2 (\<lambda>r c. call_row c r \<and> I (random_state (call_state c)))
         rows (run_calls hives_config time_range ?s)" and
    m: "map (\<lambda>c. (call_time c, call_hive c)) (run_calls hives_config time_range ?s) =
         List.product time_range hives_config"
    by blast
  have "data s' = rows"
    using e by (simp add: initial_state_def)
  with t have "generate_beehive_data time_range g = Inr (rows, hives_config)"
    by (simp add: generate_beehive_data_def)
  with l m show ?thesis
    by (intro exI [of _ rows]) (simp only: simp_thms)
qed

lemma sluggish_signals:
  "activity_v (fst (simulate dawn_time (hd hives_config) sluggish_rng)) = 3"
  "hourly_production_v (fst (simulate dawn_time (hd hives_config) sluggish_rng)) =
     (temp_factor (temperature_v (fst (simulate dawn_time (hd hives_config) sluggish_rng))) *
      humidity_factor (humidity_v (fst (simulate dawn_time (hd hives_config) sluggish_rng)))) *
     (2268 / 10000000)"
proof -
  let ?sg = "fst (simulate dawn_time (hd hives_config) sluggish_rng)"
  have act: "active_hours (hour dawn_time)"
    by (simp add: active_hours_def dawn_time_def)
  show a: "activity_v ?sg = 3"
    by (simp add: simulate_unfold Let_def sluggish_rng_def numeral_3_eq_3 dawn_time_def
        base_activity_def)
  have sf: "seasonal_factor (tm_yday dawn_time) = 9 / 10"
    by (simp add: seasonal_factor_def dawn_time_def)
  have b: "base_hourly_production (hd hives_config) = 12 / 1000"
    by (simp add: base_hourly_production_def production_multiplier_def hives_config_def)
  have m: "fst (random_uniform 0.7 1.3 sluggish_rng) = 7 / 10"
    by (simp add: random_uniform_def sluggish_rng_def)
  show "hourly_production_v ?sg =
     (temp_factor (temperature_v ?sg) * humidity_factor (humidity_v ?sg)) * (2268 / 10000000)"
    unfolding simulate_active [OF act, of "hd hives_config" sluggish_rng] a sf b m
    by simp
qed

lemma call_row_emit:
  assumes "call_row c r"
  obtains a where "cumulative (call_state c) (id_hive (call_hive c)) = Some a"
    and "r = emit (call_time c) (call_hive c) (call_signals c)
           (a + hourly_production_v (call_signals c))
           (if activity_v (call_signals c) > 0
            then hourly_production_v (call_signals c) / (activity_v (call_signals c) / 100)
            else 0)"
proof -
  from assms obtain s' where
    b: "hive_body (call_time c) (call_hive c) (call_state c) = Inr s'" and
    d: "data s' = data (call_state c) @ [r]"
    unfolding call_row_def by blast
  show thesis
  proof (cases "cumulative (call_state c) (id_hive (call_hive c))")
    case None
    with b show thesis by (simp add: hive_body_None)
  next
    case (Some a)
    from b d have "r = emit (call_time c) (call_hive c) (call_signals c)
           (a + hourly_production_v (call_signals c))
           (if activity_v (call_signals c) > 0
            then hourly_production_v (call_signals c) / (activity_v (call_signals c) / 100)
            else 0)"
      unfolding hive_body_Some [OF Some] call_signals_def by auto
    with Some show thesis by (rule that)
  qed
qed

lemma call_row_production:
  assumes "call_row c r" and "U \<longrightarrow> unit_samples (random_state (call_state c))"
  shows "production_rule U c r"
proof -
  let ?ts = "call_time c" and ?hv = "call_hive c" and ?g = "random_state (call_state c)"
  from assms(1) obtain a where
    r: "r = emit ?ts ?hv (call_signals c) (a + hourly_production_v (call_signals c))
           (if activity_v (call_signals c) > 0
            then hourly_production_v (call_signals c) / (activity_v (call_signals c) / 100)
            else 0)"
    by (rule call_row_emit)
  have m: "U \<longrightarrow> 0.7 \<le> call_multiplier c \<and> call_multiplier c \<le> 1.3"
    unfolding call_multiplier_def
    using assms(2) random_uniform_range [of ?g "0.7" "1.3"] by simp
  have hp: "hourly_production_v (call_signals c) =
        (if 6 \<le> hour ?ts \<and> hour ?ts \<le> 20
         then 0.008 * (if type_hive ?hv = ''master'' then 1.5 else 1.0) *
              temp_factor (temperature_v (call_signals c)) *
              humidity_factor (humidity_v (call_signals c)) *
              (activity_v (call_signals c) / 100) *
              seasonal_factor (tm_yday ?ts) * call_multiplier c
         else 0)"
  proof (cases "active_hours (hour ?ts)")
    case True
    then have a: "6 \<le> hour ?ts \<and> hour ?ts \<le> 20"
      by (simp add: active_hours_def)
    show ?thesis
      unfolding call_signals_def call_multiplier_def simulate_active [OF True, of ?hv ?g]
      by (simp add: a base_hourly_production_def production_multiplier_def)
  next
    case False
    then have a: "\<not> (6 \<le> hour ?ts \<and> hour ?ts \<le> 20)"
      by (simp add: active_hours_def)
    show ?thesis
      unfolding call_signals_def simulate_inactive [OF False, of ?hv ?g]
      by (simp only: a if_False)
  qed
  have e: "hourly_production r = py_round (hourly_production_v (call_signals c)) 4"
    by (simp add: r emit_def)
  have z: "\<not> (6 \<le> hour ?ts \<and> hour ?ts \<le> 20) \<longrightarrow> hourly_production r = 0"
    using hp by (simp add: e)
  from e m hp z show ?thesis
    unfolding production_rule_def by (simp only: simp_thms)
qed

text \<open>
  C2, as amended. The calls of the loop body made by a run are listed by run_calls, each
  with the state it starts from; they are the pairs of the nested loops in order, and
  each row is the one its call appends. For every call, the unrounded hourly production
  that the body computes from that state is 0 when the hour is outside [6,20] (and then
  the emitted field is exactly 0); when the hour is inside [6,20] it is the product of
  0.008 times the hive-type multiplier, the temperature, humidity, activity and seasonal
  factors of that call, and the uniform multiplier drawn in that call, which lies in
  [0.7,1.3] when the uniform samples lie in the unit interval. The emitted
  hourly_production is that value rounded to 4 decimals.
\<close>

theorem hourly_production_rule:
  "\<exists>rows. generate_beehive_data time_range g = Inr (rows, hives_config) \<and>
     map (\<lambda>c. (call_time c, call_hive c))
       (run_calls hives_config time_range (initial_state hives_config g)) =
       List.product time_range hives_config \<and>
     list_all2 (\<lambda>r c. call_row c r \<and> production_rule (unit_samples g) c r)
       rows (run_calls hives_config time_range (initial_state hives_config g))"
proof -
  let ?I = "\<lambda>g'. unit_samples g \<longrightarrow> unit_samples g'"
  have inv: "?I (snd (simulate ts hv g'))" if "?I g'" for ts hv g'
    using that by (simp add: simulate_unit_samples)
  have "?I g" by simp
  from generate_calls [of ?I, OF inv this, of time_range] obtain rows where
    g: "generate_beehive_data time_range g = Inr (rows, hives_config)" and
    l: "list_all2 (\<lambda>r c. call_row c r \<and> ?I (random_state (call_state c)))
       rows (run_calls hives_config time_range (initial_state hives_config g))" and
    m: "map (\<lambda>c. (call_time c, call_hive c))
       (run_calls hives_config time_range (initial_state hives_config g)) =
       List.product time_range hives_config"
    by blast
  from l have "list_all2 (\<lambda>r c. call_row c r \<and> production_rule (unit_samples g) c r)
       rows (run_calls hives_config time_range (initial_state hives_config g))"
    by (rule list_all2_weaken) (simp add: call_row_production)
  with g m show ?thesis
    by (intro exI [of _ rows]) (simp only: simp_thms)
qed

lemma list_all2_hd:
  "list_all2 P xs ys \<Longrightarrow> ys \<noteq> [] \<Longrightarrow> xs \<noteq> [] \<and> P (hd xs) (hd ys)"
  by (cases xs; cases ys) simp_all

lemma run_calls_hd:
  "run_calls hives_config (ts # tss) s \<noteq> [] \<and>
   hd (run_calls hives_config (ts # tss) s) =
     \<lparr>call_time = ts, call_hive = hd hives_config, call_state = s\<rparr>"
proof -
  have cfg: "hives_config = hd hives_config # tl hives_config"
    by (simp add: hives_config_def)
  have "\<exists>rest. body_calls ts hives_config s =
      \<lparr>call_time = ts, call_hive = hd hives_config, call_state = s\<rparr> # rest"
    by (subst cfg) simp
  then obtain rest where b: "body_calls ts hives_config s =
      \<lparr>call_time = ts, call_hive = hd hives_config, call_state = s\<rparr> # rest"
    by blast
  show ?thesis by (simp add: b)
qed

theorem hourly_production_rule_witness:
  "unit_samples sluggish_rng \<and> 6 \<le> hour dawn_time \<and> hour dawn_time \<le> 20 \<and>
   (\<exists>rows. generate_beehive_data [dawn_time] sluggish_rng = Inr (rows, hives_config) \<and>
      hourly_production (hd rows) =
        py_round (hourly_production_v (fst (simulate dawn_time (hd hives_config) sluggish_rng))) 4 \<and>
      hourly_production_v (fst (simulate dawn_time (hd hives_config) sluggish_rng)) =
        0.008 * 1.5 *
        temp_factor (temperature_v (fst (simulate dawn_time (hd hives_config) sluggish_rng))) *
        humidity_factor (humidity_v (fst (simulate dawn_time (hd hives_config) sluggish_rng))) *
        (activity_v (fst (simulate dawn_time (hd hives_config) sluggish_rng)) / 100) *
        seasonal_factor 80 * fst (random_uniform 0.7 1.3 sluggish_rng) \<and>
      0.7 \<le> fst (random_uniform 0.7 1.3 sluggish_rng) \<and>
      fst (random_uniform 0.7 1.3 sluggish_rng) \<le> 1.3 \<and>
      activity_v (fst (simulate dawn_time (hd hives_config) sluggish_rng)) = 3 \<and>
      0 < hourly_production_v (fst (simulate dawn_time (hd hives_config) sluggish_rng)))"
proof -
  let ?s = "initial_state hives_config sluggish_rng"
  let ?c = "\<lparr>call_time = dawn_time, call_hive = hd hives_config, call_state = ?s\<rparr>"
  let ?sg = "fst (simulate dawn_time (hd hives_config) sluggish_rng)"
  have u: "unit_samples sluggish_rng"
    by (simp add: unit_samples_def sluggish_rng_def)
  have h: "6 \<le> hour dawn_time \<and> hour dawn_time \<le> 20"
    by (simp add: dawn_time_def)
  have d: "tm_yday dawn_time = 80"
    by (simp add: dawn_time_def)
  have t: "type_hive (hd hives_config) = ''master''"
    by (simp add: hives_config_def)
  have cs: "call_signals ?c = ?sg"
    by (simp add: call_signals_def initial_state_def)
  have cm: "call_multiplier ?c = fst (random_uniform 0.7 1.3 sluggish_rng)"
    by (simp add: call_multiplier_def initial_state_def)
  from hourly_production_rule [of "[dawn_time]" sluggish_rng] obtain rows where
    g: "generate_beehive_data [dawn_time] sluggish_rng = Inr (rows, hives_config)" and
    l: "list_all2 (\<lambda>r c. call_row c r \<and> production_rule (unit_samples sluggish_rng) c r)
       rows (run_calls hives_config [dawn_time] ?s)"
    by blast
  from list_all2_hd [OF l] run_calls_hd [of dawn_time "[]" ?s]
  have "production_rule (unit_samples sluggish_rng) ?c (hd rows)"
    by simp
  then have p: "production_rule True ?c (hd rows)"
    using u by simp
  have p1: "hourly_production (hd rows) = py_round (hourly_production_v ?sg) 4"
    using p unfolding production_rule_def cs by blast
  have p2: "0.7 \<le> fst (random_uniform 0.7 1.3 sluggish_rng) \<and>
      fst (random_uniform 0.7 1.3 sluggish_rng) \<le> 1.3"
    using p unfolding production_rule_def cm by blast
  have "hourly_production_v ?sg =
        (if 6 \<le> hour dawn_time \<and> hour dawn_time \<le> 20
         then 0.008 * (if type_hive (hd hives_config) = ''master'' then 1.5 else 1.0) *
              temp_factor (temperature_v ?sg) * humidity_factor (humidity_v ?sg) *
              (activity_v ?sg / 100) * seasonal_factor (tm_yday dawn_time) *
              fst (random_uniform 0.7 1.3 sluggish_rng)
         else 0)"
    using p unfolding production_rule_def cs cm
    by (simp only: body_call.select_convs simp_thms)
  then have p3: "hourly_production_v ?sg =
        0.008 * 1.5 * temp_factor (temperature_v ?sg) * humidity_factor (humidity_v ?sg) *
        (activity_v ?sg / 100) * seasonal_factor 80 * fst (random_uniform 0.7 1.3 sluggish_rng)"
    by (simp only: h t d if_True simp_thms)
  define f where "f = temp_factor (temperature_v ?sg) * humidity_factor (humidity_v ?sg)"
  have "56 / 100 \<le> f"
    unfolding f_def by (rule factors_product_lower)
  moreover have "hourly_production_v ?sg = f * (2268 / 10000000)"
    unfolding f_def by (rule sluggish_signals(2))
  ultimately have pos: "0 < hourly_production_v ?sg"
    by simp
  from u h g p1 p3 p2 sluggish_signals(1) pos show ?thesis
    by (intro conjI exI [of _ rows]) (simp_all only: simp_thms)
qed

text \<open>
  C2 as stated fails for the emitted field: at hour 6 of day 80 with activity noise -49.4
  the activity is 0.6 (emitted as activity_level 1) and every factor of the product is
  positive, with the uniform multiplier 0.7, yet the emitted hourly_production is 0.
\<close>

theorem rounded_production_counterexample:
  "\<not> isl (generate_beehive_data [dawn_time] faint_rng) \<and>
   6 \<le> hour dawn_time \<and> hour dawn_time \<le> 20 \<and>
   hourly_production (hd (fst (projr (generate_beehive_data [dawn_time] faint_rng)))) = 0 \<and>
   activity_level (hd (fst (projr (generate_beehive_data [dawn_time] faint_rng)))) = 1 \<and>
   0 < 0.008 * 1.5 *
       temp_factor (temperature_v (fst (simulate dawn_time (hd hives_config) faint_rng))) *
       humidity_factor (humidity_v (fst (simulate dawn_time (hd hives_config) faint_rng))) *
       (activity_v (fst (simulate dawn_time (hd hives_config) faint_rng)) / 100) *
       seasonal_factor (tm_yday dawn_time) \<and>
   fst (random_uniform 0.7 1.3 faint_rng) = 0.7 \<and>
   hourly_production (hd (fst (projr (generate_beehive_data [dawn_time] faint_rng)))) \<noteq>
     0.008 * 1.5 *
       temp_factor (temperature_v (fst (simulate dawn_time (hd hives_config) faint_rng))) *
       humidity_factor (humidity_v (fst (simulate dawn_time (hd hives_config) faint_rng))) *
       (activity_v (fst (simulate dawn_time (hd hives_config) faint_rng)) / 100) *
       seasonal_factor (tm_yday dawn_time) * fst (random_uniform 0.7 1.3 faint_rng)"
proof -
  let ?sg = "fst (simulate dawn_time (hd hives_config) faint_rng)"
  define f where "f = temp_factor (temperature_v ?sg) * humidity_factor (humidity_v ?sg)"
  have flo: "56 / 100 \<le> f" and fup: "f \<le> 1"
    unfolding f_def by (rule factors_product_lower, rule factors_product_upper)
  have act: "active_hours (hour dawn_time)"
    by (simp add: active_hours_def dawn_time_def)
  have h: "6 \<le> hour dawn_time \<and> hour dawn_time \<le> 20"
    by (simp add: dawn_time_def)
  have a: "activity_v ?sg = 6 / 10"
    by (simp add: simulate_unfold Let_def faint_rng_def numeral_3_eq_3 dawn_time_def
        base_activity_def)
  have sf: "seasonal_factor (tm_yday dawn_time) = 9 / 10"
    by (simp add: seasonal_factor_def dawn_time_def)
  have b: "base_hourly_production (hd hives_config) = 12 / 1000"
    by (simp add: base_hourly_production_def production_multiplier_def hives_config_def)
  have m: "fst (random_uniform 0.7 1.3 faint_rng) = 7 / 10"
    by (simp add: random_uniform_def faint_rng_def)
  have P: "0.008 * 1.5 * temp_factor (temperature_v ?sg) * humidity_factor (humidity_v ?sg) *
       (activity_v ?sg / 100) * seasonal_factor (tm_yday dawn_time) = f * (648 / 10000000)"
    unfolding a sf f_def by simp
  have hp: "hourly_production_v ?sg = f * (4536 / 100000000)"
    unfolding simulate_active [OF act, of "hd hives_config" faint_rng] a sf b m f_def
    by simp
  from generate_rows [of "[dawn_time]" faint_rng] obtain rows where
    g: "generate_beehive_data [dawn_time] faint_rng = Inr (rows, hives_config)"
    by blast
  note hd = generate_hd [OF g]
  have e: "hourly_production (hd rows) = py_round (hourly_production_v ?sg) 4"
    unfolding hd emit_def by (simp only: reading.select_convs)
  have al: "activity_level (hd rows) = py_round (activity_v ?sg) 0"
    unfolding hd emit_def by (simp only: reading.select_convs)
  have "hourly_production_v ?sg \<le> 4536 / 100000000"
    unfolding hp using fup by simp
  then have "py_round (hourly_production_v ?sg) 4 \<le> py_round (4536 / 100000000) 4"
    by (rule py_round_mono)
  moreover have "py_round (4536 / 100000000) 4 = 0"
    by (simp add: py_round_def round_half_even_def)
  moreover have "0 \<le> hourly_production_v ?sg"
    unfolding hp using flo by simp
  then have "0 \<le> py_round (hourly_production_v ?sg) 4"
    by (rule py_round_nonneg)
  ultimately have z: "hourly_production (hd rows) = 0"
    unfolding e by simp
  have l1: "activity_level (hd rows) = 1"
    unfolding al a by (simp add: py_round_def round_half_even_def)
  have pos: "0 < f * (648 / 10000000)"
    using flo by simp
  have ne: "(0::real) \<noteq> f * (648 / 10000000) * (7 / 10)"
    using flo by simp
  have c1: "\<not> isl (generate_beehive_data [dawn_time] faint_rng)"
    by (simp add: g)
  have r: "hd (fst (projr (generate_beehive_data [dawn_time] faint_rng))) = hd rows"
    by (simp add: g)
  have m': "fst (random_uniform 0.7 1.3 faint_rng) = 0.7"
    using m by simp
  show ?thesis
    unfolding r P m z l1 using c1 h pos ne m by (simp only: simp_thms)
qed

lemma running_append:
  "running a (xs @ ys) = running a xs @ running (a + sum_list xs) ys"
  by (induction xs arbitrary: a) (simp_all add: add.assoc)

lemma length_running [simp]: "length (running a xs) = length xs"
  by (induction xs arbitrary: a) simp_all

lemma running_nth:
  "i < length xs \<Longrightarrow> running a xs ! i = a + sum_list (take (Suc i) xs)"
proof (induction xs arbitrary: a i)
  case Nil
  then show ?case by simp
next
  case (Cons x xs)
  show ?case
  proof (cases i)
    case 0
    then show ?thesis by simp
  next
    case (Suc j)
    with Cons.prems have "j < length xs" by simp
    from Cons.IH [OF this, of "a + x"] show ?thesis
      by (simp add: Suc add.assoc)
  qed
qed

lemma running_lower:
  "\<forall>x \<in> set xs. 0 \<le> x \<Longrightarrow> \<forall>t \<in> set (running a xs). a \<le> t"
proof (induction xs arbitrary: a)
  case Nil
  then show ?case by simp
next
  case (Cons x xs)
  then have x: "0 \<le> x" and xs: "\<forall>y \<in> set xs. 0 \<le> y" by simp_all
  from Cons.IH [OF xs, of "a + x"] x show ?case by fastforce
qed

lemma sorted_running:
  "\<forall>x \<in> set xs. 0 \<le> x \<Longrightarrow> sorted (map (\<lambda>t. py_round t n) (running a xs))"
proof (induction xs arbitrary: a)
  case Nil
  then show ?case by simp
next
  case (Cons x xs)
  then have xs: "\<forall>y \<in> set xs. 0 \<le> y" by simp
  from running_lower [OF xs, of "a + x"]
  have "\<forall>t \<in> set (running (a + x) xs). py_round (a + x) n \<le> py_round t n"
    by (simp add: py_round_mono)
  with Cons.IH [OF xs, of "a + x"] show ?case by simp
qed

lemma ledger_Nil: "ledger k a [] []"
  by (simp add: ledger_def)

lemma ledger_append:
  assumes "ledger k a rows1 xs1" and "ledger k (a + sum_list xs1) rows2 xs2"
  shows "ledger k a (rows1 @ rows2) (xs1 @ xs2)"
  using assms unfolding ledger_def by (auto simp: running_append)

lemma simulate_hourly_nonneg:
  assumes "unit_samples g"
  shows "0 \<le> hourly_production_v (fst (simulate ts hv g))"
proof (cases "active_hours (hour ts)")
  case False
  then show ?thesis by (simp add: simulate_inactive)
next
  case True
  let ?sg = "fst (simulate ts hv g)"
  have "0 \<le> base_hourly_production hv"
    using base_hourly_production_range [of hv] by simp
  moreover have "0 \<le> temp_factor (temperature_v ?sg)"
    using temp_factor_range [of "temperature_v ?sg"] by simp
  moreover have "0 \<le> humidity_factor (humidity_v ?sg)"
    using humidity_factor_range [of "humidity_v ?sg"] by simp
  moreover have "0 \<le> activity_v ?sg / 100"
    using simulate_activity_range [of ts hv g] by simp
  moreover have "0 \<le> seasonal_factor (tm_yday ts)"
    using seasonal_factor_range [of "tm_yday ts"] by simp
  moreover have "0 \<le> fst (random_uniform 0.7 1.3 g)"
    using random_uniform_range [of g "0.7" "1.3"] assms by simp
  ultimately show ?thesis
    unfolding simulate_active [OF True] by (intro mult_nonneg_nonneg)
qed

lemma hive_productions_Nil [simp]: "hive_productions k [] = []"
  by (simp add: hive_productions_def)

lemma hive_productions_append [simp]:
  "hive_productions k (cs @ ds) = hive_productions k cs @ hive_productions k ds"
  by (simp add: hive_productions_def)

lemma hive_body_ledger:
  assumes "id_hive hv \<in> dom (cumulative s)" and "unit_samples (random_state s)"
    and "cumulative s k = Some a"
  shows "\<exists>s' r. hive_body ts hv s = Inr s' \<and> data s' = data s @ [r] \<and>
           dom (cumulative s') = dom (cumulative s) \<and> unit_samples (random_state s') \<and>
           ledger k a [r]
             (hive_productions k [\<lparr>call_time = ts, call_hive = hv, call_state = s\<rparr>]) \<and>
           cumulative s' k =
             Some (a + sum_list
               (hive_productions k [\<lparr>call_time = ts, call_hive = hv, call_state = s\<rparr>]))"
proof -
  from assms(1) obtain b where b: "cumulative s (id_hive hv) = Some b" by auto
  let ?c = "\<lparr>call_time = ts, call_hive = hv, call_state = s\<rparr>"
  let ?sg = "fst (simulate ts hv (random_state s))"
  let ?hp = "hourly_production_v ?sg"
  let ?r = "emit ts hv ?sg (b + ?hp)
              (if activity_v ?sg > 0 then ?hp / (activity_v ?sg / 100) else 0)"
  let ?s' = "\<lparr>data = data s @ [?r], cumulative = (cumulative s)(id_hive hv \<mapsto> b + ?hp),
             random_state = snd (simulate ts hv (random_state s))\<rparr>"
  have body: "hive_body ts hv s = Inr ?s'"
    by (rule hive_body_Some [OF b])
  have dom: "dom (cumulative ?s') = dom (cumulative s)"
    using assms(1) by auto
  have u: "unit_samples (random_state ?s')"
    using assms(2) by (simp add: simulate_unit_samples)
  have nn: "0 \<le> ?hp"
    using assms(2) by (rule simulate_hourly_nonneg)
  show ?thesis
  proof (cases "k = id_hive hv")
    case True
    with assms(3) b have ab: "a = b" by simp
    have xs: "hive_productions k [?c] = [?hp]"
      by (simp add: hive_productions_def call_signals_def True)
    have "ledger k a [?r] [?hp]"
      using nn by (simp add: ledger_def emit_def True ab)
    moreover have "cumulative ?s' k = Some (a + sum_list [?hp])"
      by (simp add: True ab)
    ultimately show ?thesis
      unfolding xs using body dom u by (intro exI [of _ ?s'] exI [of _ ?r]) simp
  next
    case False
    have xs: "hive_productions k [?c] = []"
      using False by (simp add: hive_productions_def)
    have "ledger k a [?r] []"
      using False by (simp add: ledger_def emit_def)
    moreover have "cumulative ?s' k = Some (a + sum_list [])"
      using False assms(3) by simp
    ultimately show ?thesis
      unfolding xs using body dom u by (intro exI [of _ ?s'] exI [of _ ?r]) simp
  qed
qed

lemma hives_loop_ledger:
  assumes "id_hive ` set hvs \<subseteq> dom (cumulative s)" and "unit_samples (random_state s)"
    and "cumulative s k = Some a"
  shows "\<exists>s' rows. hives_loop ts hvs s = Inr s' \<and> data s' = data s @ rows \<and>
           dom (cumulative s') = dom (cumulative s) \<and> unit_samples (random_state s') \<and>
           ledger k a rows (hive_productions k (body_calls ts hvs s)) \<and>
           cumulative s' k = Some (a + sum_list (hive_productions k (body_calls ts hvs s)))"
  using assms
proof (induction hvs arbitrary: s a)
  case Nil
  have "cumulative s k = Some (a + sum_list [])"
    using Nil.prems(3) by simp
  with Nil.prems(2) ledger_Nil [of k a] show ?case
    by (intro exI [of _ s] exI [of _ "[]"]) simp
next
  case (Cons hv hvs)
  let ?c = "\<lparr>call_time = ts, call_hive = hv, call_state = s\<rparr>"
  from Cons.prems(1) have "id_hive hv \<in> dom (cumulative s)" by simp
  from hive_body_ledger [OF this Cons.prems(2,3), of ts] obtain s1 r where
    B: "hive_body ts hv s = Inr s1" "data s1 = data s @ [r]"
      "dom (cumulative s1) = dom (cumulative s)" "unit_samples (random_state s1)"
      "ledger k a [r] (hive_productions k [?c])"
      "cumulative s1 k = Some (a + sum_list (hive_productions k [?c]))"
    by blast
  from Cons.prems(1) B(3) have "id_hive ` set hvs \<subseteq> dom (cumulative s1)"
    by simp
  from Cons.IH [OF this B(4) B(6)] obtain s' rows where
    IH: "hives_loop ts hvs s1 = Inr s'" "data s' = data s1 @ rows"
      "dom (cumulative s') = dom (cumulative s1)" "unit_samples (random_state s')"
      "ledger k (a + sum_list (hive_productions k [?c])) rows
         (hive_productions k (body_calls ts hvs s1))"
      "cumulative s' k = Some (a + sum_list (hive_productions k [?c]) +
         sum_list (hive_productions k (body_calls ts hvs s1)))"
    by blast
  have calls: "body_calls ts (hv # hvs) s = [?c] @ body_calls ts hvs s1"
    by (simp add: B(1))
  have "hives_loop ts (hv # hvs) s = Inr s'"
    by (simp add: B(1) IH(1))
  moreover have "data s' = data s @ ([r] @ rows)"
    by (simp add: IH(2) B(2))
  moreover have "dom (cumulative s') = dom (cumulative s)"
    using IH(3) B(3) by simp
  moreover note IH(4)
  moreover have "ledger k a ([r] @ rows) (hive_productions k (body_calls ts (hv # hvs) s))"
    unfolding calls hive_productions_append using B(5) IH(5) by (rule ledger_append)
  moreover have "cumulative s' k =
      Some (a + sum_list (hive_productions k (body_calls ts (hv # hvs) s)))"
    unfolding calls hive_productions_append by (simp add: IH(6) add.assoc)
  ultimately show ?case
    by (intro exI [of _ s'] exI [of _ "[r] @ rows"]) (simp only: simp_thms)
qed

lemma time_loop_ledger:
  assumes "id_hive ` set hvs \<subseteq> dom (cumulative s)" and "unit_samples (random_state s)"
    and "cumulative s k = Some a"
  shows "\<exists>s' rows. time_loop hvs tss s = Inr s' \<and> data s' = data s @ rows \<and>
           dom (cumulative s') = dom (cumulative s) \<and> unit_samples (random_state s') \<and>
           ledger k a rows (hive_productions k (run_calls hvs tss s)) \<and>
           cumulative s' k = Some (a + sum_list (hive_productions k (run_calls hvs tss s)))"
  using assms
proof (induction tss arbitrary: s a)
  case Nil
  have "cumulative s k = Some (a + sum_list [])"
    using Nil.prems(3) by simp
  with Nil.prems(2) ledger_Nil [of k a] show ?case
    by (intro exI [of _ s] exI [of _ "[]"]) simp
next
  case (Cons ts tss)
  let ?xs1 = "hive_productions k (body_calls ts hvs s)"
  from hives_loop_ledger [OF Cons.prems, of ts] obtain s1 rows1 where
    H: "hives_loop ts hvs s = Inr s1" "data s1 = data s @ rows1"
      "dom (cumulative s1) = dom (cumulative s)" "unit_samples (random_state s1)"
      "ledger k a rows1 ?xs1" "cumulative s1 k = Some (a + sum_list ?xs1)"
    by blast
  from Cons.prems(1) H(3) have "id_hive ` set hvs \<subseteq> dom (cumulative s1)"
    by simp
  from Cons.IH [OF this H(4) H(6)] obtain s' rows where
    IH: "time_loop hvs tss s1 = Inr s'" "data s' = data s1 @ rows"
      "dom (cumulative s') = dom (cumulative s1)" "unit_samples (random_state s')"
      "ledger k (a + sum_list ?xs1) rows (hive_productions k (run_calls hvs tss s1))"
      "cumulative s' k =
         Some (a + sum_list ?xs1 + sum_list (hive_productions k (run_calls hvs tss s1)))"
    by blast
  have calls: "run_calls hvs (ts # tss) s = body_calls ts hvs s @ run_calls hvs tss s1"
    by (simp add: H(1))
  have "time_loop hvs (ts # tss) s = Inr s'"
    by (simp add: H(1) IH(1))
  moreover have "data s' = data s @ (rows1 @ rows)"
    by (simp add: IH(2) H(2))
  moreover have "dom (cumulative s') = dom (cumulative s)"
    using IH(3) H(3) by simp
  moreover note IH(4)
  moreover have "ledger k a (rows1 @ rows) (hive_productions k (run_calls hvs (ts # tss) s))"
    unfolding calls hive_productions_append using H(5) IH(5) by (rule ledger_append)
  moreover have "cumulative s' k =
      Some (a + sum_list (hive_productions k (run_calls hvs (ts # tss) s)))"
    unfolding calls hive_productions_append by (simp add: IH(6) add.assoc)
  ultimately show ?case
    by (intro exI [of _ s'] exI [of _ "rows1 @ rows"]) (simp only: simp_thms)
qed

lemma initial_cumulative:
  "hv \<in> set hvs \<Longrightarrow> cumulative (initial_state hvs g) (id_hive hv) = Some 0"
  by (induction hvs) (auto simp: initial_state_def)

lemma generate_ledger:
  assumes "unit_samples g" and "hv \<in> set hives_config"
  shows "\<exists>rows. generate_beehive_data time_range g = Inr (rows, hives_config) \<and>
           ledger (id_hive hv) 0 rows
             (hive_productions (id_hive hv)
                (run_calls hives_config time_range (initial_state hives_config g)))"
proof -
  let ?s = "initial_state hives_config g"
  have d: "id_hive ` set hives_config \<subseteq> dom (cumulative ?s)"
    by (simp add: dom_initial_state)
  have u: "unit_samples (random_state ?s)"
    using assms(1) by (simp add: initial_state_def)
  have a: "cumulative ?s (id_hive hv) = Some 0"
    using assms(2) by (rule initial_cumulative)
  from time_loop_ledger [OF d u a, of time_range] obtain s' rows where
    t: "time_loop hives_config time_range ?s = Inr s'" and e: "data s' = data ?s @ rows"
    and l: "ledger (id_hive hv) 0 rows
              (hive_productions (id_hive hv) (run_calls hives_config time_range ?s))"
    by blast
  have "data s' = rows"
    using e by (simp add: initial_state_def)
  with t have "generate_beehive_data time_range g = Inr (rows, hives_config)"
    by (simp add: generate_beehive_data_def)
  with l show ?thesis
    by (intro exI [of _ rows]) simp
qed

lemma length_filter_product:
  "length (filter (\<lambda>p. P (snd p)) (List.product xs ys)) = length xs * length (filter P ys)"
  by (induction xs) (simp_all add: filter_map comp_def)

lemma one_hive_per_id:
  "hv \<in> set hives_config \<Longrightarrow>
   length (filter (\<lambda>h. id_hive h = id_hive hv) hives_config) = 1"
  by (auto simp: hives_config_def)

lemma length_hive_productions:
  assumes "map (\<lambda>c. (call_time c, call_hive c)) cs = List.product tss hives_config"
    and "hv \<in> set hives_config"
  shows "length (hive_productions (id_hive hv) cs) = length tss"
proof -
  have "length (hive_productions (id_hive hv) cs) =
      length (filter (\<lambda>p. id_hive (snd p) = id_hive hv)
                (map (\<lambda>c. (call_time c, call_hive c)) cs))"
    by (simp add: hive_productions_def filter_map comp_def)
  also have "\<dots> = length tss * length (filter (\<lambda>h. id_hive h = id_hive hv) hives_config)"
    unfolding assms(1) by (rule length_filter_product)
  finally show ?thesis
    by (simp add: one_hive_per_id [OF assms(2)])
qed

text \<open>
  C1, as amended. For every hive of the table, let the unrounded values be the hourly
  productions computed by the successive calls of the loop body for that hive, each from
  the state the run has reached (hive_productions over run_calls). There is one such
  value and one row of that hive per timestamp of the grid; each value is non-negative;
  the i-th row of the hive emits the i-th value rounded to 4 decimals as
  hourly_production and the sum of the first i+1 values rounded to 3 decimals as
  cumulative_production; and the emitted cumulative_production is non-decreasing along
  the hive's rows.
\<close>

theorem cumulative_running_total:
  assumes "unit_samples g" and "hv \<in> set hives_config"
  shows "\<exists>rows. generate_beehive_data time_range g = Inr (rows, hives_config) \<and>
     length (hive_productions (id_hive hv)
       (run_calls hives_config time_range (initial_state hives_config g))) = length time_range \<and>
     length (filter (\<lambda>r. hive_id r = id_hive hv) rows) = length time_range \<and>
     (\<forall>i < length time_range.
        0 \<le> hive_productions (id_hive hv)
              (run_calls hives_config time_range (initial_state hives_config g)) ! i \<and>
        hourly_production (filter (\<lambda>r. hive_id r = id_hive hv) rows ! i) =
          py_round (hive_productions (id_hive hv)
            (run_calls hives_config time_range (initial_state hives_config g)) ! i) 4 \<and>
        cumulative_production (filter (\<lambda>r. hive_id r = id_hive hv) rows ! i) =
          py_round (sum_list (take (Suc i) (hive_productions (id_hive hv)
            (run_calls hives_config time_range (initial_state hives_config g))))) 3) \<and>
     sorted (map cumulative_production (filter (\<lambda>r. hive_id r = id_hive hv) rows))"
proof -
  let ?k = "id_hive hv"
  let ?cs = "run_calls hives_config time_range (initial_state hives_config g)"
  let ?xs = "hive_productions ?k ?cs"
  from generate_ledger [OF assms, of time_range] obtain rows where
    g: "generate_beehive_data time_range g = Inr (rows, hives_config)" and
    l: "ledger ?k 0 rows ?xs"
    by blast
  let ?rs = "filter (\<lambda>r. hive_id r = ?k) rows"
  from l have nn: "\<forall>x \<in> set ?xs. 0 \<le> x"
    and hp: "map hourly_production ?rs = map (\<lambda>x. py_round x 4) ?xs"
    and cp: "map cumulative_production ?rs = map (\<lambda>t. py_round t 3) (running 0 ?xs)"
    unfolding ledger_def by simp_all
  have m: "map (\<lambda>c. (call_time c, call_hive c)) ?cs = List.product time_range hives_config"
    using generate_calls [where I = "\<lambda>_. True" and g = g and time_range = time_range]
    by auto
  have lx: "length ?xs = length time_range"
    using m assms(2) by (rule length_hive_productions)
  have "length ?rs = length (map hourly_production ?rs)"
    by simp
  also have "\<dots> = length ?xs"
    unfolding hp by simp
  finally have lr: "length ?rs = length time_range"
    by (simp add: lx)
  have nth: "0 \<le> ?xs ! i \<and> hourly_production (?rs ! i) = py_round (?xs ! i) 4 \<and>
      cumulative_production (?rs ! i) = py_round (sum_list (take (Suc i) ?xs)) 3"
    if "i < length time_range" for i
  proof -
    from that lx have ix: "i < length ?xs" by simp
    from that lr have ir: "i < length ?rs" by simp
    from ix nn have "0 \<le> ?xs ! i" by simp
    moreover have "hourly_production (?rs ! i) = map hourly_production ?rs ! i"
      using ir by simp
    then have "hourly_production (?rs ! i) = py_round (?xs ! i) 4"
      unfolding hp using ix by simp
    moreover have "cumulative_production (?rs ! i) = map cumulative_production ?rs ! i"
      using ir by simp
    then have "cumulative_production (?rs ! i) = py_round (running 0 ?xs ! i) 3"
      unfolding cp using ix by simp
    then have "cumulative_production (?rs ! i) = py_round (sum_list (take (Suc i) ?xs)) 3"
      using running_nth [OF ix, of 0] by simp
    ultimately show ?thesis by (simp only: simp_thms)
  qed
  then have nth': "\<forall>i < length time_range.
      0 \<le> ?xs ! i \<and> hourly_production (?rs ! i) = py_round (?xs ! i) 4 \<and>
      cumulative_production (?rs ! i) = py_round (sum_list (take (Suc i) ?xs)) 3"
    by blast
  have srt: "sorted (map cumulative_production ?rs)"
    unfolding cp using nn by (rule sorted_running)
  from g lx lr nth' srt show ?thesis
    by (intro exI [of _ rows]) (simp only: simp_thms)
qed

lemma filter_key_hd:
  assumes "map f xs = a # bs" and "a \<notin> set bs"
  shows "filter (\<lambda>x. f x = a) xs = [hd xs]"
proof -
  from assms(1) obtain x xs' where xs: "xs = x # xs'" and x: "f x = a" and bs: "map f xs' = bs"
    by auto
  from assms(2) bs have "\<forall>y \<in> set xs'. f y \<noteq> a"
    by auto
  then have "filter (\<lambda>x. f x = a) xs' = []"
    by (simp add: filter_empty_conv)
  with xs x show ?thesis by simp
qed

text \<open>
  C1 as stated fails: at hour 6 of day 80 with activity noise -47 the only row of hive
  master_001 has an hourly production between 0.000127 and 0.0003; its emitted
  cumulative_production is 0, which is neither that value nor the emitted
  hourly_production (at least 0.0001).
\<close>

theorem rounded_total_counterexample:
  "\<not> isl (generate_beehive_data [dawn_time] sluggish_rng) \<and>
   filter (\<lambda>r. hive_id r = ''master_001'')
     (fst (projr (generate_beehive_data [dawn_time] sluggish_rng))) =
     [hd (fst (projr (generate_beehive_data [dawn_time] sluggish_rng)))] \<and>
   cumulative_production (hd (fst (projr (generate_beehive_data [dawn_time] sluggish_rng)))) \<noteq>
     hourly_production (hd (fst (projr (generate_beehive_data [dawn_time] sluggish_rng)))) \<and>
   cumulative_production (hd (fst (projr (generate_beehive_data [dawn_time] sluggish_rng)))) \<noteq>
     hourly_production_v (fst (simulate dawn_time (hd hives_config) sluggish_rng))"
proof -
  let ?sg = "fst (simulate dawn_time (hd hives_config) sluggish_rng)"
  let ?f = "temp_factor (temperature_v ?sg) * humidity_factor (humidity_v ?sg)"
  let ?hp = "hourly_production_v ?sg"
  from generate_keys [of "[dawn_time]" sluggish_rng] obtain rows where
    g: "generate_beehive_data [dawn_time] sluggish_rng = Inr (rows, hives_config)" and
    k: "map (\<lambda>r. (timestamp r, hive_id r)) rows =
          List.product (map isoformat [dawn_time]) (map id_hive hives_config)"
    by blast
  note hd = generate_hd [OF g]
  have "map hive_id rows = map snd (map (\<lambda>r. (timestamp r, hive_id r)) rows)"
    by (simp add: comp_def)
  then have "map hive_id rows = ''master_001'' #
      [''worker_001'', ''worker_002'', ''worker_003'', ''master_002'', ''worker_004'',
       ''worker_005'']"
    unfolding k by (simp add: hives_config_def)
  then have only: "filter (\<lambda>r. hive_id r = ''master_001'') rows = [hd rows]"
    by (rule filter_key_hd) simp
  define f where "f = ?f"
  have flo: "56 / 100 \<le> f" and fup: "f \<le> 1"
    unfolding f_def by (rule factors_product_lower, rule factors_product_upper)
  have hpf: "?hp = f * (2268 / 10000000)"
    unfolding f_def by (rule sluggish_signals(2))
  have lo: "127 / 1000000 \<le> ?hp"
    unfolding hpf using flo by simp
  have up: "?hp \<le> 3 / 10000"
    unfolding hpf using fup by simp
  have cp: "cumulative_production (hd rows) = py_round (0 + ?hp) 3"
    unfolding hd emit_def by (simp only: reading.select_convs)
  have hp: "hourly_production (hd rows) = py_round ?hp 4"
    unfolding hd emit_def by (simp only: reading.select_convs)
  have "py_round ?hp 3 \<le> py_round (3 / 10000) 3"
    using up by (rule py_round_mono)
  moreover have "py_round (3 / 10000) 3 = 0"
    by (simp add: py_round_def round_half_even_def)
  moreover have "0 \<le> py_round ?hp 3"
    using lo by (intro py_round_nonneg) simp
  ultimately have c0: "cumulative_production (hd rows) = 0"
    unfolding cp by simp
  have "py_round (1 / 10000) 4 \<le> py_round ?hp 4"
    using lo by (intro py_round_mono) simp
  moreover have "py_round (1 / 10000) 4 = 1 / 10000"
    by (simp add: py_round_def round_half_even_def)
  ultimately have h0: "hourly_production (hd rows) \<noteq> 0"
    unfolding hp by simp
  have v0: "?hp \<noteq> 0"
    using lo by simp
  from only c0 h0 v0 show ?thesis
    by (simp add: g)
qed

lemma list_all2_ball2:
  assumes "list_all2 P xs ys" and "\<And>x y. P x y \<Longrightarrow> Q y"
  shows "\<forall>y \<in> set ys. Q y"
  using assms by (induction rule: list_all2_induct) auto

lemma simulate_zero_rng: "snd (simulate ts hv zero_rng) = zero_rng"
  by (simp add: simulate_unfold Let_def zero_rng_def)

lemma zero_rng_positive:
  assumes "ts = dawn_time \<or> ts = noon_time"
  shows "0 < hourly_production_v (fst (simulate ts hv zero_rng))"
proof -
  let ?sg = "fst (simulate ts hv zero_rng)"
  from assms have act: "active_hours (hour ts)"
    by (auto simp: active_hours_def dawn_time_def noon_time_def)
  from assms have a: "activity_v ?sg = 50"
    by (auto simp: simulate_unfold Let_def zero_rng_def dawn_time_def noon_time_def
        base_activity_def)
  have m: "fst (random_uniform 0.7 1.3 zero_rng) = 7 / 10"
    by (simp add: random_uniform_def zero_rng_def)
  have "0 < base_hourly_production hv"
    using base_hourly_production_range [of hv] by simp
  moreover have "0 < temp_factor (temperature_v ?sg)"
    using temp_factor_range [of "temperature_v ?sg"] by simp
  moreover have "0 < humidity_factor (humidity_v ?sg)"
    using humidity_factor_range [of "humidity_v ?sg"] by simp
  moreover have "0 < activity_v ?sg / 100"
    by (simp add: a)
  moreover have "0 < seasonal_factor (tm_yday ts)"
    using seasonal_factor_range [of "tm_yday ts"] by simp
  moreover have "0 < fst (random_uniform 0.7 1.3 zero_rng)"
    by (simp add: m)
  ultimately show ?thesis
    unfolding simulate_active [OF act] by (intro mult_pos_pos)
qed

lemma call_times:
  assumes "map (\<lambda>c. (call_time c, call_hive c)) cs = List.product tss hvs"
  shows "\<forall>c \<in> set cs. call_time c \<in> set tss"
proof
  fix c assume "c \<in> set cs"
  then have "(call_time c, call_hive c) \<in> set (map (\<lambda>c. (call_time c, call_hive c)) cs)"
    by (simp add: image_iff) blast
  then show "call_time c \<in> set tss"
    unfolding assms by simp
qed

lemma hive_productions_positive:
  assumes "\<forall>c \<in> set cs. random_state (call_state c) = zero_rng"
    and "\<forall>c \<in> set cs. call_time c \<in> set [dawn_time, noon_time]"
  shows "\<forall>x \<in> set (hive_productions k cs). 0 < x"
  using assms by (auto simp: hive_productions_def call_signals_def zero_rng_positive)

theorem cumulative_running_total_witness:
  "unit_samples zero_rng \<and> hd hives_config \<in> set hives_config \<and>
   (\<exists>rows. generate_beehive_data [dawn_time, noon_time] zero_rng = Inr (rows, hives_config) \<and>
      length (filter (\<lambda>r. hive_id r = id_hive (hd hives_config)) rows) = 2 \<and>
      0 < hive_productions (id_hive (hd hives_config))
            (run_calls hives_config [dawn_time, noon_time]
               (initial_state hives_config zero_rng)) ! 0 \<and>
      0 < hive_productions (id_hive (hd hives_config))
            (run_calls hives_config [dawn_time, noon_time]
               (initial_state hives_config zero_rng)) ! 1 \<and>
      cumulative_production (filter (\<lambda>r. hive_id r = id_hive (hd hives_config)) rows ! 1) =
        py_round (sum_list (take 2 (hive_productions (id_hive (hd hives_config))
            (run_calls hives_config [dawn_time, noon_time]
               (initial_state hives_config zero_rng))))) 3 \<and>
      sorted (map cumulative_production
                (filter (\<lambda>r. hive_id r = id_hive (hd hives_config)) rows)))"
proof -
  let ?grid = "[dawn_time, noon_time]"
  let ?k = "id_hive (hd hives_config)"
  define cs where "cs = run_calls hives_config ?grid (initial_state hives_config zero_rng)"
  define xs where "xs = hive_productions ?k cs"
  have lg: "length ?grid = 2"
    by simp
  have mem: "hd hives_config \<in> set hives_config"
    by (simp add: hives_config_def)
  obtain rows where
    g: "generate_beehive_data ?grid zero_rng = Inr (rows, hives_config)" and
    lx: "length xs = length ?grid" and
    lr: "length (filter (\<lambda>r. hive_id r = ?k) rows) = length ?grid" and
    nth: "\<forall>i < length ?grid.
        0 \<le> xs ! i \<and>
        hourly_production (filter (\<lambda>r. hive_id r = ?k) rows ! i) = py_round (xs ! i) 4 \<and>
        cumulative_production (filter (\<lambda>r. hive_id r = ?k) rows ! i) =
          py_round (sum_list (take (Suc i) xs)) 3" and
    srt: "sorted (map cumulative_production (filter (\<lambda>r. hive_id r = ?k) rows))"
    using cumulative_running_total [OF unit_samples_zero_rng mem, of ?grid]
    unfolding xs_def cs_def by blast
  have inv: "snd (simulate ts hv g') = zero_rng" if "g' = zero_rng" for ts hv g'
    using that by (simp add: simulate_zero_rng)
  obtain rows' where
    l: "list_all2 (\<lambda>r c. call_row c r \<and> random_state (call_state c) = zero_rng) rows' cs" and
    m: "map (\<lambda>c. (call_time c, call_hive c)) cs = List.product ?grid hives_config"
    using generate_calls [where I = "\<lambda>g'. g' = zero_rng" and g = zero_rng
        and time_range = ?grid, OF inv refl]
    unfolding cs_def by blast
  from l have z: "\<forall>c \<in> set cs. random_state (call_state c) = zero_rng"
    by (rule list_all2_ball2) simp
  have t: "\<forall>c \<in> set cs. call_time c \<in> set ?grid"
    using m by (rule call_times)
  have pos: "\<forall>x \<in> set xs. 0 < x"
    unfolding xs_def using z t by (rule hive_productions_positive)
  have l2: "length xs = 2"
    using lx by (simp only: lg)
  then have "xs ! 0 \<in> set xs" "xs ! 1 \<in> set xs"
    by simp_all
  with pos have p0: "0 < xs ! 0" and p1: "0 < xs ! 1"
    by blast+
  have c1: "cumulative_production (filter (\<lambda>r. hive_id r = ?k) rows ! 1) =
      py_round (sum_list (take 2 xs)) 3"
    using nth [unfolded lg, rule_format, of 1] by (simp add: numeral_2_eq_2)
  have r2: "length (filter (\<lambda>r. hive_id r = ?k) rows) = 2"
    using lr by (simp only: lg)
  from unit_samples_zero_rng mem g r2 p0 p1 c1 srt show ?thesis
    unfolding xs_def cs_def
    by (intro conjI exI [of _ rows]) (simp_all only: simp_thms)
qed

lemma stake_eq_iff: "stake n s = stake n t \<longleftrightarrow> (\<forall>i < n. s !! i = t !! i)"
proof (induction n arbitrary: s t)
  case 0
  show ?case by simp
next
  case (Suc n)
  have "(\<forall>i < Suc n. s !! i = t !! i) \<longleftrightarrow>
        (shd s = shd t \<and> (\<forall>i < n. stl s !! i = stl t !! i))"
    by (auto simp: less_Suc_eq_0_disj)
  with Suc [of "stl s" "stl t"] show ?case by simp
qed

lemma simulate_agree:
  assumes "agree (4 + n) (Suc m) g1 g2"
  shows "fst (simulate ts hv g1) = fst (simulate ts hv g2) \<and>
         agree n m (snd (simulate ts hv g1)) (snd (simulate ts hv g2))"
proof -
  from assms have z: "normals g1 !! i = normals g2 !! i" if "i < 4 + n" for i
    using that unfolding agree_def by blast
  from assms have u: "uniforms g1 !! j = uniforms g2 !! j" if "j < Suc m" for j
    using that unfolding agree_def by blast
  have z0: "normals g1 !! 0 = normals g2 !! 0"
    and z1: "normals g1 !! Suc 0 = normals g2 !! Suc 0"
    and z2: "normals g1 !! 2 = normals g2 !! 2"
    and z3: "normals g1 !! 3 = normals g2 !! 3"
    by (rule z, simp)+
  have u0: "shd (uniforms g1) = shd (uniforms g2)"
    using u [of 0] by simp
  have zd: "sdrop 4 (normals g1) !! i = sdrop 4 (normals g2) !! i" if "i < n" for i
    using z [of "4 + i"] that by (simp add: sdrop_snth)
  have us: "stl (uniforms g1) !! j = stl (uniforms g2) !! j" if "j < m" for j
    using u [of "Suc j"] that by simp
  have uk: "uniforms g1 !! j = uniforms g2 !! j" if "j < m" for j
    using u [of j] that by simp
  have "fst (simulate ts hv g1) = fst (simulate ts hv g2)"
    unfolding simulate_unfold Let_def by (simp add: z0 z1 z2 z3 u0 del: snth.simps)
  moreover have "agree n m (snd (simulate ts hv g1)) (snd (simulate ts hv g2))"
    unfolding simulate_unfold Let_def agree_def using zd us uk by simp
  ultimately show ?thesis ..
qed

lemma hive_body_agree:
  assumes "states_agree (4 + n) (Suc m) s1 s2"
  shows "rel_sum (=) (states_agree n m) (hive_body ts hv s1) (hive_body ts hv s2)"
proof -
  from assms have d: "data s1 = data s2" and c: "cumulative s1 = cumulative s2"
    and a: "agree (4 + n) (Suc m) (random_state s1) (random_state s2)"
    unfolding states_agree_def by simp_all
  note sim = simulate_agree [OF a, of ts hv]
  show ?thesis
  proof (cases "cumulative s1 (id_hive hv)")
    case None
    then have "cumulative s2 (id_hive hv) = None" by (simp add: c)
    with None show ?thesis by (simp add: hive_body_None)
  next
    case (Some b)
    then have b2: "cumulative s2 (id_hive hv) = Some b" by (simp add: c)
    show ?thesis
      unfolding hive_body_Some [OF Some] hive_body_Some [OF b2]
      using sim by (simp add: states_agree_def d c)
  qed
qed

lemma agree_mono: "agree n m g1 g2 \<Longrightarrow> n' \<le> n \<Longrightarrow> m' \<le> m \<Longrightarrow> agree n' m' g1 g2"
  unfolding agree_def by auto

lemma hives_loop_agree:
  assumes "states_agree (4 * length hvs + n) (length hvs + m) s1 s2"
  shows "rel_sum (=) (states_agree n m) (hives_loop ts hvs s1) (hives_loop ts hvs s2)"
  using assms
proof (induction hvs arbitrary: s1 s2)
  case Nil
  then show ?case by simp
next
  case (Cons hv hvs)
  from Cons.prems have
    "states_agree (4 + (4 * length hvs + n)) (Suc (length hvs + m)) s1 s2"
    by (simp add: add.assoc)
  from hive_body_agree [OF this, of ts hv]
  have r: "rel_sum (=) (states_agree (4 * length hvs + n) (length hvs + m))
             (hive_body ts hv s1) (hive_body ts hv s2)" .
  show ?case
  proof (cases "hive_body ts hv s1")
    case (Inl e)
    with r have "hive_body ts hv s2 = Inl e"
      by (cases "hive_body ts hv s2") simp_all
    with Inl show ?thesis by simp
  next
    case (Inr a)
    with r obtain b where b: "hive_body ts hv s2 = Inr b"
      and ab: "states_agree (4 * length hvs + n) (length hvs + m) a b"
      by (cases "hive_body ts hv s2") simp_all
    from Cons.IH [OF ab] show ?thesis by (simp add: Inr b)
  qed
qed

lemma time_loop_agree:
  assumes "states_agree (4 * length hvs * length tss + n) (length hvs * length tss + m) s1 s2"
  shows "rel_sum (=) (states_agree n m) (time_loop hvs tss s1) (time_loop hvs tss s2)"
  using assms
proof (induction tss arbitrary: s1 s2)
  case Nil
  then show ?case by simp
next
  case (Cons ts tss)
  let ?n = "4 * length hvs * length tss + n" and ?m = "length hvs * length tss + m"
  from Cons.prems have "states_agree (4 * length hvs + ?n) (length hvs + ?m) s1 s2"
    by (simp add: algebra_simps)
  from hives_loop_agree [OF this, of ts]
  have r: "rel_sum (=) (states_agree ?n ?m) (hives_loop ts hvs s1) (hives_loop ts hvs s2)" .
  show ?case
  proof (cases "hives_loop ts hvs s1")
    case (Inl e)
    with r have "hives_loop ts hvs s2 = Inl e"
      by (cases "hives_loop ts hvs s2") simp_all
    with Inl show ?thesis by simp
  next
    case (Inr a)
    with r obtain b where b: "hives_loop ts hvs s2 = Inr b" and ab: "states_agree ?n ?m a b"
      by (cases "hives_loop ts hvs s2") simp_all
    from Cons.IH [OF ab] show ?thesis by (simp add: Inr b)
  qed
qed

text \<open>
  C10. With the time grid and the random samples as explicit inputs, the generator is a
  function of the samples it consumes: two runs on the same grid whose random sources
  agree on the first 28 normal samples and the first 7 uniform samples per timestamp
  return the same result, and that result is a reading list paired with the fixed
  topology table.
\<close>

theorem generate_deterministic:
  assumes "stake (28 * length time_range) (normals g1) =
           stake (28 * length time_range) (normals g2)"
    and "stake (7 * length time_range) (uniforms g1) =
         stake (7 * length time_range) (uniforms g2)"
  shows "generate_beehive_data time_range g1 = generate_beehive_data time_range g2 \<and>
         (\<exists>rows. generate_beehive_data time_range g1 = Inr (rows, hives_config))"
proof -
  let ?s1 = "initial_state hives_config g1" and ?s2 = "initial_state hives_config g2"
  have seven: "length hives_config = 7"
    by (simp add: hives_config_def)
  from assms have "agree (28 * length time_range) (7 * length time_range) g1 g2"
    unfolding agree_def stake_eq_iff by simp
  then have "states_agree (4 * length hives_config * length time_range + 0)
      (length hives_config * length time_range + 0) ?s1 ?s2"
    by (simp add: states_agree_def initial_state_def seven)
  from time_loop_agree [OF this]
  have r: "rel_sum (=) (states_agree 0 0)
      (time_loop hives_config time_range ?s1) (time_loop hives_config time_range ?s2)" .
  from generate_rows [of time_range g1] obtain rows where
    g: "generate_beehive_data time_range g1 = Inr (rows, hives_config)"
    by blast
  have "generate_beehive_data time_range g1 = generate_beehive_data time_range g2"
  proof (cases "time_loop hives_config time_range ?s1")
    case (Inl e)
    with r have "time_loop hives_config time_range ?s2 = Inl e"
      by (cases "time_loop hives_config time_range ?s2") simp_all
    with Inl show ?thesis by (simp add: generate_beehive_data_def)
  next
    case (Inr a)
    with r obtain b where b: "time_loop hives_config time_range ?s2 = Inr b"
      and ab: "states_agree 0 0 a b"
      by (cases "time_loop hives_config time_range ?s2") simp_all
    from ab have "data a = data b" by (simp add: states_agree_def)
    then show ?thesis by (simp add: generate_beehive_data_def Inr b)
  qed
  with g show ?thesis by blast
qed

lemma stake_sconst: "stake n (sconst x) = replicate n x"
  by (induction n) (simp_all del: stake_siterate)

theorem generate_deterministic_witness:
  "stake (28 * length [night_time]) (normals zero_rng) =
     stake (28 * length [night_time]) (normals late_rng) \<and>
   stake (7 * length [night_time]) (uniforms zero_rng) =
     stake (7 * length [night_time]) (uniforms late_rng) \<and>
   normals zero_rng !! 28 \<noteq> normals late_rng !! 28 \<and>
   generate_beehive_data [night_time] zero_rng = generate_beehive_data [night_time] late_rng"
proof -
  have n: "stake (28 * length [night_time]) (normals zero_rng) =
     stake (28 * length [night_time]) (normals late_rng)"
    by (simp add: zero_rng_def late_rng_def stake_shift stake_sconst del: stake_siterate)
  have u: "stake (7 * length [night_time]) (uniforms zero_rng) =
     stake (7 * length [night_time]) (uniforms late_rng)"
    by (simp add: zero_rng_def late_rng_def stake_shift stake_sconst del: stake_siterate)
  have d: "normals zero_rng !! 28 \<noteq> normals late_rng !! 28"
    by (simp add: zero_rng_def late_rng_def)
  from generate_deterministic [OF n u] n u d show ?thesis by blast
qed

end
